theory Spec2Isabelle
  imports Main
begin

section \<open>JavaScript strings and arrays\<close>

text \<open>
  Strings are byte strings; the URLs of the service are ASCII. \<open>toLowerCase\<close> and
  \<open>trim\<close> are modelled on ASCII letters and ASCII white space.
\<close>

definition lower_char :: "char \<Rightarrow> char" where
  "lower_char c =
     (let n = (of_char c :: nat) in if 65 \<le> n \<and> n \<le> 90 then char_of (n + 32) else c)"

definition toLowerCase :: "string \<Rightarrow> string" where
  "toLowerCase s = map lower_char s"

definition is_space :: "char \<Rightarrow> bool" where
  "is_space c = (let n = (of_char c :: nat) in n = 32 \<or> (9 \<le> n \<and> n \<le> 13))"

definition trim :: "string \<Rightarrow> string" where
  "trim s = rev (dropWhile is_space (rev (dropWhile is_space s)))"

text \<open>\<open>s.split(c)\<close> for a one-character separator: the result is never empty.\<close>

fun js_split :: "char \<Rightarrow> string \<Rightarrow> string list" where
  "js_split c [] = [[]]"
| "js_split c (x # xs) =
     (if x = c then [] # js_split c xs
      else (case js_split c xs of [] \<Rightarrow> [[x]] | s # ss \<Rightarrow> (x # s) # ss))"

text \<open>\<open>a.pop()\<close> read as a value: the last element, \<open>undefined\<close> on an empty array.\<close>

definition js_pop :: "'a list \<Rightarrow> 'a option" where
  "js_pop xs = (if xs = [] then None else Some (last xs))"

text \<open>\<open>s.includes(sub)\<close>: \<open>sub\<close> occurs in \<open>s\<close> as a contiguous substring.\<close>

fun starts_with :: "string \<Rightarrow> string \<Rightarrow> bool" where
  "starts_with s [] = True"
| "starts_with [] (y # ys) = False"
| "starts_with (x # xs) (y # ys) = (x = y \<and> starts_with xs ys)"

fun str_includes :: "string \<Rightarrow> string \<Rightarrow> bool" where
  "str_includes [] sub = (sub = [])"
| "str_includes (x # xs) sub = (starts_with (x # xs) sub \<or> str_includes xs sub)"

section \<open>Errors\<close>

text \<open>
  A thrown JavaScript value is seen through the properties the code reads:
  \<open>message\<close>, \<open>code\<close> (a string such as ECONNRESET or a number such as 401),
  \<open>response\<close>, \<open>request\<close>, \<open>isAxiosError\<close>, and, for the framework's
  \<open>HttpException\<close>, its status. An \<open>HttpException\<close> keeps its first constructor
  argument in the property \<open>response\<close>: a string, an object with a message and a
  list of url/reason pairs, or (for the validation pipe's \<open>BadRequestException\<close>) an
  object with the list of the violated constraints' messages, or (in the controller) an
  object with a status and an error text.
\<close>

datatype code_val = CodeStr string | CodeNum nat

datatype http_body =
    BodyText string
  | BodyDetails string "(string \<times> string) list"
  | BodyMessages "string list"
  | BodyStatusError nat string

datatype response_prop = NoResponse | AxiosResponse nat | NestResponse http_body

record js_error =
  err_message :: string
  err_code :: "code_val option"
  err_response :: response_prop
  err_request :: bool
  err_isAxiosError :: bool
  err_status :: "nat option"

definition BAD_REQUEST :: nat where
  "BAD_REQUEST = 400"

text \<open>\<open>new Error(msg)\<close>.\<close>

definition Error :: "string \<Rightarrow> js_error" where
  "Error msg = \<lparr>err_message = msg, err_code = None, err_response = NoResponse,
     err_request = False, err_isAxiosError = False, err_status = None\<rparr>"

text \<open>\<open>new HttpException(body, status)\<close>; the message of an object body is its
  \<open>message\<close> field.\<close>

definition body_message :: "http_body \<Rightarrow> string" where
  "body_message b =
     (case b of BodyText s \<Rightarrow> s | BodyDetails m _ \<Rightarrow> m
      | BodyMessages _ \<Rightarrow> ''Bad Request Exception''
      | BodyStatusError _ _ \<Rightarrow> ''Http Exception'')"

definition HttpException :: "http_body \<Rightarrow> nat \<Rightarrow> js_error" where
  "HttpException body st = \<lparr>err_message = body_message body, err_code = None,
     err_response = NestResponse body, err_request = False, err_isAxiosError = False,
     err_status = Some st\<rparr>"

text \<open>The value of \<open>throw null\<close>: no property can be read from it.\<close>

definition js_null :: js_error where
  "js_null = Error []"

text \<open>Truthiness of \<open>error.response\<close> and the value of \<open>error.response.status\<close>.\<close>

definition response_truthy :: "response_prop \<Rightarrow> bool" where
  "response_truthy r =
     (case r of NoResponse \<Rightarrow> False
      | AxiosResponse _ \<Rightarrow> True
      | NestResponse (BodyText s) \<Rightarrow> s \<noteq> []
      | NestResponse (BodyDetails _ _) \<Rightarrow> True
      | NestResponse (BodyMessages _) \<Rightarrow> True
      | NestResponse (BodyStatusError _ _) \<Rightarrow> True)"

definition response_status :: "response_prop \<Rightarrow> nat option" where
  "response_status r =
     (case r of AxiosResponse n \<Rightarrow> Some n
      | NestResponse (BodyStatusError n _) \<Rightarrow> Some n
      | _ \<Rightarrow> None)"

text \<open>The url/reason pairs an error carries in its body.\<close>

definition error_details :: "js_error \<Rightarrow> (string \<times> string) list" where
  "error_details e =
     (case err_response e of NestResponse (BodyDetails _ ds) \<Rightarrow> ds | _ \<Rightarrow> [])"

section \<open>The request DTO\<close>

definition SUPPORTED_FILE_EXTENSIONS :: "string list" where
  "SUPPORTED_FILE_EXTENSIONS =
     [''pdf'', ''doc'', ''docx'', ''xls'', ''xlsx'', ''ppt'', ''pptx'', ''txt'', ''csv'',
      ''jpg'', ''jpeg'', ''png'', ''gif'', ''bmp'', ''svg'', ''webp'',
      ''mp3'', ''mp4'', ''avi'', ''mov'', ''wmv'', ''zip'', ''rar'', ''tar'', ''gz'']"

definition DANGEROUS_FILE_EXTENSIONS :: "string list" where
  "DANGEROUS_FILE_EXTENSIONS =
     [''exe'', ''bat'', ''cmd'', ''sh'', ''php'', ''js'', ''jar'', ''dll'', ''vbs'', ''ps1'']"

text \<open>\<open>xs.includes(v)\<close> where \<open>v\<close> may be \<open>undefined\<close>.\<close>

definition includes_opt :: "'a list \<Rightarrow> 'a option \<Rightarrow> bool" where
  "includes_opt xs v = (case v of None \<Rightarrow> False | Some x \<Rightarrow> x \<in> set xs)"

text \<open>The extension the transform looks at: the last segment of the whole lowercased
  URL string split on the dot.\<close>

definition dto_extension :: "string \<Rightarrow> string option" where
  "dto_extension url = js_pop (js_split CHR ''.'' (toLowerCase url))"

definition show_opt :: "string option \<Rightarrow> string" where
  "show_opt v = (case v of None \<Rightarrow> ''undefined'' | Some s \<Rightarrow> s)"

text \<open>The body of the \<open>map\<close> callback of the \<open>Transform\<close> decorator, for one URL.\<close>

definition transform_url :: "string \<Rightarrow> js_error + string" where
  "transform_url url0 =
     (let url = trim url0;
          extension = dto_extension url
      in if includes_opt DANGEROUS_FILE_EXTENSIONS extension
         then Inl (Error (''File extension \"'' @ show_opt extension @
                          ''\" is not allowed for security reasons''))
         else if \<not> includes_opt SUPPORTED_FILE_EXTENSIONS extension
         then Inl (Error (''File extension \"'' @ show_opt extension @ ''\" is not supported''))
         else Inr url)"

text \<open>\<open>value.map(...)\<close>: the first throw leaves the map.\<close>

fun transform_fileUrls :: "string list \<Rightarrow> js_error + string list" where
  "transform_fileUrls [] = Inr []"
| "transform_fileUrls (u # us) =
     (case transform_url u of
        Inl e \<Rightarrow> Inl e
      | Inr u' \<Rightarrow> (case transform_fileUrls us of Inl e \<Rightarrow> Inl e | Inr us' \<Rightarrow> Inr (u' # us')))"


section \<open>Numbers in messages\<close>

definition digit_char :: "nat \<Rightarrow> char" where
  "digit_char d = char_of (48 + d)"

function show_nat :: "nat \<Rightarrow> string" where
  "show_nat n = (if n < 10 then [digit_char n] else show_nat (n div 10) @ [digit_char (n mod 10)])"
  by pat_completeness auto
termination
  by (relation "measure (\<lambda>n. n)") auto

declare show_nat.simps [simp del]

definition show_nat_opt :: "nat option \<Rightarrow> string" where
  "show_nat_opt v = (case v of None \<Rightarrow> ''undefined'' | Some n \<Rightarrow> show_nat n)"

section \<open>Paths\<close>

text \<open>
  \<open>path.extname\<close> of Node (POSIX flavour), transliterated: the scan runs from the last
  character to the first and stops at the first slash after a non-slash character.
\<close>

record ext_state =
  startDot :: int
  startPart :: int
  endIdx :: int
  matchedSlash :: bool
  preDotState :: int

definition ext_init :: ext_state where
  "ext_init = \<lparr>startDot = -1, startPart = 0, endIdx = -1, matchedSlash = True, preDotState = 0\<rparr>"

text \<open>\<open>extname_scan path n st\<close> runs the loop for \<open>i = n - 1\<close> down to \<open>0\<close>.\<close>

fun extname_scan :: "string \<Rightarrow> nat \<Rightarrow> ext_state \<Rightarrow> ext_state" where
  "extname_scan path 0 st = st"
| "extname_scan path (Suc i) st =
     (let code = path ! i in
      if code = CHR ''/'' then
        (if \<not> matchedSlash st then st\<lparr>startPart := int i + 1\<rparr>
         else extname_scan path i st)
      else
        (let st1 = (if endIdx st = -1 then st\<lparr>matchedSlash := False, endIdx := int i + 1\<rparr>
                    else st);
             st2 = (if code = CHR ''.'' then
                      (if startDot st1 = -1 then st1\<lparr>startDot := int i\<rparr>
                       else if preDotState st1 \<noteq> 1 then st1\<lparr>preDotState := 1\<rparr>
                       else st1)
                    else if startDot st1 \<noteq> -1 then st1\<lparr>preDotState := -1\<rparr>
                    else st1)
         in extname_scan path i st2))"

definition extname :: "string \<Rightarrow> string" where
  "extname path =
     (let st = extname_scan path (length path) ext_init in
      if startDot st = -1 \<or> endIdx st = -1 \<or> preDotState st = 0 \<or>
         (preDotState st = 1 \<and> startDot st = endIdx st - 1 \<and> startDot st = startPart st + 1)
      then []
      else take (nat (endIdx st - startDot st)) (drop (nat (startDot st)) path))"

text \<open>\<open>path.join(dir, name)\<close> for a normalised directory and a plain file name.\<close>

definition path_join :: "string \<Rightarrow> string \<Rightarrow> string" where
  "path_join dir name = dir @ ''/'' @ name"


section \<open>The outside world\<close>

text \<open>
  The service talks to the file system, to the HTTP servers of the URLs, to the storage
  provider, to the OAuth server and to the database. What these answer is not decided by
  the code: it is a parameter, the environment, which gives the answer to the k-th call
  of each kind. What the code has done so far is the state, the world: the files in the
  temporary directory, the rows of the table, the log, the delays waited, the
  credentials of the OAuth client, and how many calls of each kind were made.

  The service runs the pipelines of several URLs interleaved on one thread. The model
  runs them one after the other in the order of the list.
\<close>

record file_metadata =
  md_name :: string
  md_mimeType :: string
  md_size :: nat

record upload_result =
  ur_id :: string
  ur_url :: string

text \<open>A row of the table of files; the two time stamps of the row are left out.\<close>

record file_record =
  f_id :: nat
  f_name :: string
  f_mimeType :: string
  f_size :: nat
  f_driveFileId :: string
  f_driveUrl :: string

text \<open>A stream opened by \<open>createReadStream\<close> on a path.\<close>

datatype stream = ReadStream string

record tokens =
  access_token :: "string option"
  refresh_token :: "string option"

text \<open>What happens to the body of a response piped into the temporary file: the read
  stream, the write stream or \<open>fs.stat\<close> fails, or the file holds so many bytes.\<close>

datatype body_outcome = BodyFailed js_error | BodyWritten nat

text \<open>The answer to a GET: no response at all, or a status, the content-type and
  content-length headers, and the fate of the body.\<close>

datatype http_outcome =
    NetworkError js_error
  | HttpResponse nat "string option" "string option" body_outcome

text \<open>The answer of \<open>drive.files.create\<close>: a rejection, or a response whose
  \<open>data.id\<close> may be missing.\<close>

datatype drive_outcome = DriveRejected js_error | DriveResponse "string option"

text \<open>The callback arguments of the OAuth client's \<open>refreshAccessToken\<close>.\<close>

datatype refresh_outcome = RefreshError js_error | RefreshTokens "tokens option"

record env =
  url_pathname :: "string \<Rightarrow> string option"
  isURL :: "string \<Rightarrow> bool"
  tmpdir :: string
  randomBytesHex :: "nat \<Rightarrow> string"
  http_get :: "nat \<Rightarrow> string \<Rightarrow> http_outcome"
  unlink_result :: "nat \<Rightarrow> js_error option"
  drive_files_create :: "nat \<Rightarrow> file_metadata \<Rightarrow> stream \<Rightarrow> drive_outcome"
  oauth_refresh :: "nat \<Rightarrow> refresh_outcome"
  writeFile_result :: "nat \<Rightarrow> js_error option"
  prisma_create :: "nat \<Rightarrow> js_error + nat"
  MAX_CONCURRENT_UPLOADS :: nat

text \<open>
  \<open>url_pathname u\<close> is the \<open>pathname\<close> of \<open>new URL(u)\<close>, \<open>None\<close> when the
  constructor throws; \<open>isURL\<close> is the validator behind the \<open>IsUrl\<close> decorator with
  the protocols http and https required; \<open>prisma_create k\<close> is the error of the k-th
  insert or the id the database gives the row.
\<close>

datatype log_level = Log | Warn | LogError

record world =
  tmp_files :: "string set"
  db_rows :: "file_record list"
  logs :: "(log_level \<times> string) list"
  sleeps :: "nat list"
  credentials :: tokens
  token_file :: "tokens option"
  drive_ready :: bool
  n_random :: nat
  n_http :: nat
  n_unlink :: nat
  n_drive :: nat
  n_refresh :: nat
  n_writeFile :: nat
  n_db :: nat

type_synonym 'a result = "(js_error + 'a) \<times> world"

definition logger :: "log_level \<Rightarrow> string \<Rightarrow> world \<Rightarrow> world" where
  "logger lvl msg w = w\<lparr>logs := logs w @ [(lvl, msg)]\<rparr>"

text \<open>\<open>await new Promise(resolve => setTimeout(resolve, delay))\<close>.\<close>

definition sleep :: "nat \<Rightarrow> world \<Rightarrow> world" where
  "sleep d w = w\<lparr>sleeps := sleeps w @ [d]\<rparr>"

text \<open>Truthiness of an optional string.\<close>

definition truthy :: "string option \<Rightarrow> bool" where
  "truthy v = (case v of None \<Rightarrow> False | Some s \<Rightarrow> s \<noteq> [])"

subsection \<open>File system\<close>

definition ENOENT :: js_error where
  "ENOENT = (Error ''ENOENT: no such file or directory'')\<lparr>err_code := Some (CodeStr ''ENOENT'')\<rparr>"

text \<open>\<open>createWriteStream(p)\<close> creates the file.\<close>

definition createWriteStream :: "string \<Rightarrow> world \<Rightarrow> world" where
  "createWriteStream p w = w\<lparr>tmp_files := insert p (tmp_files w)\<rparr>"

definition fs_access :: "string \<Rightarrow> world \<Rightarrow> unit result" where
  "fs_access p w = (if p \<in> tmp_files w then (Inr (), w) else (Inl ENOENT, w))"

text \<open>\<open>fs.unlink(p)\<close>: a missing file is an error; removing an existing one may fail
  too, as the environment decides.\<close>

definition fs_unlink :: "env \<Rightarrow> string \<Rightarrow> world \<Rightarrow> unit result" where
  "fs_unlink E p w =
     (if p \<notin> tmp_files w then (Inl ENOENT, w)
      else (let k = n_unlink w; w1 = w\<lparr>n_unlink := Suc k\<rparr> in
            case unlink_result E k of
              Some e \<Rightarrow> (Inl e, w1)
            | None \<Rightarrow> (Inr (), w1\<lparr>tmp_files := tmp_files w1 - {p}\<rparr>)))"

section \<open>GoogleAuthService\<close>

definition saveTokens :: "env \<Rightarrow> tokens \<Rightarrow> world \<Rightarrow> unit result" where
  "saveTokens E t w =
     (let k = n_writeFile w; w1 = w\<lparr>n_writeFile := Suc k\<rparr> in
      case writeFile_result E k of
        None \<Rightarrow> (Inr (), logger Log ''Tokens saved to token.json'' (w1\<lparr>token_file := Some t\<rparr>))
      | Some e \<Rightarrow> (Inl e, logger LogError ''Failed to save tokens'' w1))"

definition getAuthClient :: "world \<Rightarrow> unit result" where
  "getAuthClient w =
     (if \<not> truthy (access_token (credentials w))
      then (Inl (Error ''Authentication required. Please visit /auth/google to authenticate.''),
            logger Log ''No access token available, authentication required'' w)
      else (Inr (), w))"

definition refreshAccessToken :: "env \<Rightarrow> world \<Rightarrow> string result" where
  "refreshAccessToken E w =
     (if \<not> truthy (refresh_token (credentials w))
      then (Inl (Error ''No refresh token available, re-authentication required''), w)
      else (let k = n_refresh w; w1 = w\<lparr>n_refresh := Suc k\<rparr> in
            case oauth_refresh E k of
              RefreshError err \<Rightarrow> (Inl err, logger LogError ''Error refreshing access token'' w1)
            | RefreshTokens None \<Rightarrow> (Inl (Error ''No access token returned''), w1)
            | RefreshTokens (Some t) \<Rightarrow>
                (if \<not> truthy (access_token t) then (Inl (Error ''No access token returned''), w1)
                 else (let w2 = w1\<lparr>credentials := t\<rparr> in
                       case saveTokens E t w2 of
                         (Inr _, w3) \<Rightarrow> (Inr (show_opt (access_token t)), w3)
                       | (Inl saveErr, w3) \<Rightarrow>
                           (Inr (show_opt (access_token t)),
                            logger Warn ''Failed to save refreshed tokens'' w3)))))"

section \<open>GoogleDriveService\<close>

definition initializeDriveClient :: "world \<Rightarrow> unit result" where
  "initializeDriveClient w =
     (case getAuthClient w of
        (Inr _, w1) \<Rightarrow>
          (Inr (), logger Log ''Google Drive API initialized successfully'' (w1\<lparr>drive_ready := True\<rparr>))
      | (Inl e, w1) \<Rightarrow>
          (Inl e, logger Warn ''Drive client initialization deferred - authentication required'' w1))"

definition getDriveClient :: "world \<Rightarrow> unit result" where
  "getDriveClient w = (if \<not> drive_ready w then initializeDriveClient w else (Inr (), w))"

text \<open>The \<open>try\<close> block of \<open>uploadFile\<close>: one call of \<open>drive.files.create\<close>.\<close>

definition uploadFile_try :: "env \<Rightarrow> stream \<Rightarrow> file_metadata \<Rightarrow> world \<Rightarrow> upload_result result" where
  "uploadFile_try E fileStream metadata w =
     (case getDriveClient w of
        (Inl e, w1) \<Rightarrow> (Inl e, w1)
      | (Inr _, w1) \<Rightarrow>
          (let w2 = logger Log (''Uploading file to Google Drive: '' @ md_name metadata) w1;
               k = n_drive w2;
               w3 = w2\<lparr>n_drive := Suc k\<rparr>
           in case drive_files_create E k metadata fileStream of
                DriveRejected e \<Rightarrow> (Inl e, w3)
              | DriveResponse idv \<Rightarrow>
                  (if \<not> truthy idv
                   then (Inl (Error ''File ID was not returned from Google Drive''), w3)
                   else (Inr \<lparr>ur_id = show_opt idv,
                              ur_url = ''https://drive.google.com/file/d/'' @ show_opt idv @ ''/view''\<rparr>,
                         logger Log (''Successfully uploaded file to Google Drive: '' @
                                     md_name metadata @ '', ID: '' @ show_opt idv) w3))))"

text \<open>The test of the \<open>catch\<close> block for errors that start a token refresh.\<close>

definition is_auth_error :: "js_error \<Rightarrow> bool" where
  "is_auth_error error =
     (err_code error = Some (CodeNum 401) \<or>
      str_includes (err_message error) ''auth'' \<or>
      str_includes (err_message error) ''token'' \<or>
      str_includes (err_message error) ''Authentication required'')"

definition auth_expired :: js_error where
  "auth_expired =
     Error ''Authentication expired. Please visit /auth/google to re-authenticate with Google Drive.''"

text \<open>The inner \<open>try\<close> block up to the retry: refresh the token, initialise the client
  again.\<close>

definition refresh_and_reinit :: "env \<Rightarrow> world \<Rightarrow> unit result" where
  "refresh_and_reinit E w =
     (case refreshAccessToken E (logger Log ''Attempting to refresh authentication'' w) of
        (Inl e, w1) \<Rightarrow> (Inl e, w1)
      | (Inr _, w1) \<Rightarrow> initializeDriveClient w1)"

text \<open>
  \<open>uploadFile\<close> calls itself after a successful refresh, and the promise of that call
  is returned without \<open>await\<close>: its result, success or error, is the result of the
  caller, and the \<open>catch (refreshError)\<close> clause does not see it. Nothing bounds the
  depth of the recursion, so the model counts it down from a given fuel: \<open>None\<close>
  means that \<open>fuel\<close> calls did not finish the operation.
\<close>

fun uploadFile :: "nat \<Rightarrow> env \<Rightarrow> stream \<Rightarrow> file_metadata \<Rightarrow> world \<Rightarrow> upload_result result option" where
  "uploadFile 0 E fileStream metadata w = None"
| "uploadFile (Suc fuel) E fileStream metadata w =
     (case uploadFile_try E fileStream metadata w of
        (Inr r, w1) \<Rightarrow> Some (Inr r, w1)
      | (Inl error, w1) \<Rightarrow>
          (let w2 = logger LogError (''Failed to upload file to Google Drive: '' @ md_name metadata) w1
           in if is_auth_error error then
                (case refresh_and_reinit E w2 of
                   (Inr _, w3) \<Rightarrow>
                     uploadFile fuel E fileStream metadata
                       (logger Log ''Retrying upload with refreshed token'' w3)
                 | (Inl refreshError, w3) \<Rightarrow>
                     Some (Inl auth_expired,
                           logger LogError ''Token refresh failed, re-authentication required'' w3))
              else Some (Inl error, w2)))"


section \<open>FileService\<close>

text \<open>
  The repository holds two versions of the service. They differ in \<open>uploadFiles\<close> and
  in the name of the retry loop (\<open>processFileUpload\<close> in the version with the
  concurrency limiter, \<open>uploadSingleFileWithRetry\<close> in the version with batches);
  everything from \<open>uploadSingleFile\<close> down is the same text in both.
\<close>

definition MAX_RETRIES :: nat where
  "MAX_RETRIES = 3"

definition INITIAL_BACKOFF_TIME :: nat where
  "INITIAL_BACKOFF_TIME = 1000"

definition MAX_BACKOFF_TIME :: nat where
  "MAX_BACKOFF_TIME = 60000"

definition CHUNK_SIZE :: nat where
  "CHUNK_SIZE = 5 * 1024 * 1024"

definition extractFileNameFromUrl :: "env \<Rightarrow> string \<Rightarrow> world \<Rightarrow> string \<times> world" where
  "extractFileNameFromUrl E url w =
     (case url_pathname E url of
        None \<Rightarrow> (''unknown-file'', logger Warn (''Failed to parse URL '' @ url @ '': Invalid URL'') w)
      | Some urlPath \<Rightarrow>
          (let fileName = js_pop (js_split CHR ''/'' urlPath)
           in (if truthy fileName then show_opt fileName else ''unknown-file'', w)))"

subsection \<open>validateFileUrls\<close>

definition SERVICE_EXTENSIONS :: "string list" where
  "SERVICE_EXTENSIONS =
     [''.jpg'', ''.jpeg'', ''.png'', ''.gif'', ''.pdf'', ''.doc'', ''.docx'',
      ''.xls'', ''.xlsx'', ''.txt'', ''.csv'', ''.mp3'', ''.mp4'', ''.avi'',
      ''.mov'', ''.zip'', ''.rar'']"

definition MISSING_EXTENSION :: string where
  "MISSING_EXTENSION = ''Missing file extension. Please provide a URL with a valid file extension.''"

text \<open>The body of the \<open>forEach\<close> callback; \<open>invalidUrls\<close> is the array it pushes to.\<close>

definition validate_step :: "env \<Rightarrow> string \<Rightarrow> (string \<times> string) list \<times> world \<Rightarrow> (string \<times> string) list \<times> world" where
  "validate_step E url acc =
     (case acc of (invalidUrls, w) \<Rightarrow>
        (case url_pathname E url of
           None \<Rightarrow> (invalidUrls @ [(url, ''Invalid URL format'')], w)
         | Some _ \<Rightarrow>
             (case extractFileNameFromUrl E url w of (fileName, w1) \<Rightarrow>
                (let fileExtension = toLowerCase (extname fileName) in
                 if fileExtension = [] \<or> fileExtension = ''.''
                 then (invalidUrls @ [(url, MISSING_EXTENSION)], w1)
                 else if fileExtension \<notin> set SERVICE_EXTENSIONS
                 then (invalidUrls @
                         [(url, ''File extension \"'' @ fileExtension @ ''\" is not supported.'')], w1)
                 else (invalidUrls, w1)))))"

definition validateFileUrls :: "env \<Rightarrow> string list \<Rightarrow> world \<Rightarrow> unit result" where
  "validateFileUrls E fileUrls w =
     (case fold (validate_step E) fileUrls ([], w) of (invalidUrls, w1) \<Rightarrow>
        if length invalidUrls > 0
        then (Inl (HttpException (BodyDetails ''Invalid file URLs detected'' invalidUrls) BAD_REQUEST), w1)
        else (Inr (), w1))"

subsection \<open>The pipeline of one URL\<close>

definition createTempFilePath :: "env \<Rightarrow> world \<Rightarrow> string \<times> world" where
  "createTempFilePath E w =
     (let randomId = randomBytesHex E (n_random w)
      in (path_join (tmpdir E) (''upload-'' @ randomId), w\<lparr>n_random := Suc (n_random w)\<rparr>))"

text \<open>The error axios rejects with when \<open>validateStatus\<close> refuses the status.\<close>

definition axios_status_error :: "nat \<Rightarrow> js_error" where
  "axios_status_error st =
     \<lparr>err_message = ''Request failed with status code '' @ show_nat st,
      err_code = Some (CodeStr (if 400 \<le> st \<and> st < 500 then ''ERR_BAD_REQUEST'' else ''ERR_BAD_RESPONSE'')),
      err_response = AxiosResponse st, err_request = True, err_isAxiosError = True,
      err_status = None\<rparr>"

definition validateStatus :: "nat \<Rightarrow> bool" where
  "validateStatus st = (st \<ge> 200 \<and> st < 300)"

definition downloadFile :: "env \<Rightarrow> string \<Rightarrow> string \<Rightarrow> world \<Rightarrow> (stream \<times> file_metadata) result" where
  "downloadFile E url tempFilePath w =
     (let w1 = createWriteStream tempFilePath w;
          k = n_http w1;
          w2 = w1\<lparr>n_http := Suc k\<rparr>
      in case http_get E k url of
           NetworkError e \<Rightarrow> (Inl e, w2)
         | HttpResponse st ctype clen body \<Rightarrow>
             (if \<not> validateStatus st then (Inl (axios_status_error st), w2)
              else (case extractFileNameFromUrl E url w2 of (fileName, w3) \<Rightarrow>
                      (let contentType = (if truthy ctype then show_opt ctype
                                          else ''application/octet-stream'')
                       in case body of
                            BodyFailed e \<Rightarrow> (Inl e, w3)
                          | BodyWritten sz \<Rightarrow>
                              (Inr (ReadStream tempFilePath,
                                    \<lparr>md_name = fileName, md_mimeType = contentType, md_size = sz\<rparr>),
                               w3)))))"

definition uploadLargeFile :: "nat \<Rightarrow> env \<Rightarrow> string \<Rightarrow> file_metadata \<Rightarrow> world \<Rightarrow> upload_result result option" where
  "uploadLargeFile fuel E filePath metadata w =
     (let fileStream = ReadStream filePath in uploadFile fuel E fileStream metadata w)"

definition saveToDB :: "env \<Rightarrow> string \<Rightarrow> file_metadata \<Rightarrow> upload_result \<Rightarrow> world \<Rightarrow> file_record result" where
  "saveToDB E fileName metadata uploadResult w =
     (let k = n_db w; w1 = w\<lparr>n_db := Suc k\<rparr> in
      case prisma_create E k of
        Inl e \<Rightarrow> (Inl e, w1)
      | Inr newId \<Rightarrow>
          (let row = \<lparr>f_id = newId, f_name = fileName, f_mimeType = md_mimeType metadata,
                      f_size = md_size metadata, f_driveFileId = ur_id uploadResult,
                      f_driveUrl = ur_url uploadResult\<rparr>
           in (Inr row, w1\<lparr>db_rows := db_rows w1 @ [row]\<rparr>)))"

text \<open>
  The body of the inner \<open>try\<close> of \<open>uploadSingleFile\<close>, in three pieces: the
  choice between the two upload paths, the steps after a successful upload (insert
  the row, log, remove the temporary file), and the whole body.
\<close>

definition upload_step :: "nat \<Rightarrow> env \<Rightarrow> string \<Rightarrow> string \<Rightarrow> stream \<Rightarrow> file_metadata \<Rightarrow> world \<Rightarrow> upload_result result option" where
  "upload_step fuel E tempFilePath fileName fileStream fileMetadata w =
     (if md_size fileMetadata > CHUNK_SIZE
      then uploadLargeFile fuel E tempFilePath fileMetadata
             (logger Log (''Using chunked upload for large file: '' @ fileName @ '' ('' @
                          show_nat (md_size fileMetadata) @ '' bytes)'') w)
      else uploadFile fuel E fileStream fileMetadata w)"

definition save_and_unlink :: "env \<Rightarrow> string \<Rightarrow> string \<Rightarrow> file_metadata \<Rightarrow> upload_result \<Rightarrow> world \<Rightarrow> file_record result" where
  "save_and_unlink E tempFilePath fileName fileMetadata uploadResult w =
     (case saveToDB E fileName fileMetadata uploadResult w of
        (Inl e, w4) \<Rightarrow> (Inl e, w4)
      | (Inr file, w4) \<Rightarrow>
          (let w5 = logger Log (''Successfully uploaded file: '' @ fileName) w4;
               w6 = (case fs_unlink E tempFilePath w5 of
                       (Inr _, w') \<Rightarrow> w'
                     | (Inl err, w') \<Rightarrow>
                         logger Warn (''Failed to delete temp file '' @ tempFilePath @
                                      '': '' @ err_message err) w')
           in (Inr file, w6)))"

definition uploadSingleFile_body :: "nat \<Rightarrow> env \<Rightarrow> string \<Rightarrow> string \<Rightarrow> world \<Rightarrow> file_record result option" where
  "uploadSingleFile_body fuel E url tempFilePath w =
     (case downloadFile E url tempFilePath w of
        (Inl e, w1) \<Rightarrow> Some (Inl e, w1)
      | (Inr (fileStream, fileMetadata), w1) \<Rightarrow>
          (case extractFileNameFromUrl E url w1 of (fileName, w2) \<Rightarrow>
             (case upload_step fuel E tempFilePath fileName fileStream fileMetadata w2 of
                None \<Rightarrow> None
              | Some (Inl e, w3) \<Rightarrow> Some (Inl e, w3)
              | Some (Inr uploadResult, w3) \<Rightarrow>
                  Some (save_and_unlink E tempFilePath fileName fileMetadata uploadResult w3))))"

text \<open>The clean-up of the inner \<open>catch\<close>: \<open>access\<close>, then \<open>unlink\<close>, errors
  swallowed.\<close>

definition cleanup_temp :: "env \<Rightarrow> string \<Rightarrow> world \<Rightarrow> world" where
  "cleanup_temp E tempFilePath w =
     (case fs_access tempFilePath w of
        (Inl _, w1) \<Rightarrow> w1
      | (Inr _, w1) \<Rightarrow> snd (fs_unlink E tempFilePath w1))"

definition isAxiosError :: "js_error \<Rightarrow> bool" where
  "isAxiosError error = (err_isAxiosError error = True)"

text \<open>The outer \<open>catch\<close>: every error leaves \<open>uploadSingleFile\<close> as an
  \<open>HttpException\<close> with status 400.\<close>

definition wrap_error :: "js_error \<Rightarrow> js_error" where
  "wrap_error error =
     (if isAxiosError error \<and> response_truthy (err_response error)
      then HttpException (BodyText (''Failed to download file: Server responded with status '' @
                                    show_nat_opt (response_status (err_response error)))) BAD_REQUEST
      else if isAxiosError error \<and> err_request error
      then HttpException (BodyText ''Failed to download file: No response received from server'')
             BAD_REQUEST
      else HttpException (BodyText (''Failed to upload file: '' @ err_message error)) BAD_REQUEST)"

definition uploadSingleFile :: "nat \<Rightarrow> env \<Rightarrow> string \<Rightarrow> world \<Rightarrow> file_record result option" where
  "uploadSingleFile fuel E url w =
     (case createTempFilePath E w of (tempFilePath, w0) \<Rightarrow>
        (case uploadSingleFile_body fuel E url tempFilePath w0 of
           None \<Rightarrow> None
         | Some (Inr file, w1) \<Rightarrow> Some (Inr file, w1)
         | Some (Inl error, w1) \<Rightarrow>
             (let w2 = cleanup_temp E tempFilePath w1;
                  w3 = logger LogError (''Error processing file from URL: '' @ url) w2
              in Some (Inl (wrap_error error), w3))))"

subsection \<open>The retry loop\<close>

definition isRetryable :: "js_error \<Rightarrow> bool" where
  "isRetryable error =
     (err_code error = Some (CodeStr ''ECONNRESET'') \<or>
      err_code error = Some (CodeStr ''ETIMEDOUT'') \<or>
      (response_truthy (err_response error) \<and>
       includes_opt [429, 500, 502, 503, 504] (response_status (err_response error))))"

text \<open>
  The loop of \<open>processFileUpload\<close>, with the attempt it makes as a parameter: the
  service's attempt is \<open>uploadSingleFile\<close>. The arguments after the URL are the loop's
  variables \<open>attempt\<close>, \<open>delay\<close> and \<open>lastError\<close>.
\<close>

function retry_loop :: "(world \<Rightarrow> 'a result option) \<Rightarrow> string \<Rightarrow> nat \<Rightarrow> nat \<Rightarrow> js_error option \<Rightarrow> world \<Rightarrow> 'a result option" where
  "retry_loop attempt_fn fileUrl attempt delay lastError w =
     (if attempt < MAX_RETRIES then
        (case attempt_fn w of
           None \<Rightarrow> None
         | Some (Inr file, w1) \<Rightarrow> Some (Inr file, w1)
         | Some (Inl error, w1) \<Rightarrow>
             (if \<not> isRetryable error then Some (Inl error, w1)
              else if attempt + 1 < MAX_RETRIES then
                retry_loop attempt_fn fileUrl (attempt + 1) (min (delay * 2) MAX_BACKOFF_TIME)
                  (Some error)
                  (sleep delay
                     (logger Warn (''Retrying upload (attempt '' @ show_nat (attempt + 1) @ ''/'' @
                                   show_nat MAX_RETRIES @ '') for URL: '' @ fileUrl) w1))
              else retry_loop attempt_fn fileUrl (attempt + 1) delay (Some error) w1))
      else Some (Inl (case lastError of None \<Rightarrow> js_null | Some e \<Rightarrow> e), w))"
  by pat_completeness auto
termination
  by (relation "measure (\<lambda>(f, u, attempt, d, l, w). MAX_RETRIES - attempt)") auto

declare retry_loop.simps [simp del]

definition processFileUpload :: "nat \<Rightarrow> env \<Rightarrow> string \<Rightarrow> world \<Rightarrow> file_record result option" where
  "processFileUpload fuel E fileUrl w =
     retry_loop (uploadSingleFile fuel E fileUrl) fileUrl 0 INITIAL_BACKOFF_TIME None w"

definition uploadSingleFileWithRetry :: "nat \<Rightarrow> env \<Rightarrow> string \<Rightarrow> world \<Rightarrow> file_record result option" where
  "uploadSingleFileWithRetry fuel E url w =
     retry_loop (uploadSingleFile fuel E url) url 0 INITIAL_BACKOFF_TIME None w"


subsection \<open>uploadFiles, version with the concurrency limiter\<close>

text \<open>The promises of the URLs, run one after the other; each ends fulfilled or
  rejected.\<close>

fun run_uploads :: "(string \<Rightarrow> world \<Rightarrow> 'a result option) \<Rightarrow> string list \<Rightarrow> world \<Rightarrow> ((js_error + 'a) list \<times> world) option" where
  "run_uploads f [] w = Some ([], w)"
| "run_uploads f (u # us) w =
     (case f u w of
        None \<Rightarrow> None
      | Some (r, w1) \<Rightarrow>
          (case run_uploads f us w1 of
             None \<Rightarrow> None
           | Some (rs, w2) \<Rightarrow> Some (r # rs, w2)))"

text \<open>\<open>Promise.all\<close> rejects with the first rejection and otherwise fulfils with all
  the values.\<close>

fun first_rejection :: "(js_error + 'a) list \<Rightarrow> js_error option" where
  "first_rejection [] = None"
| "first_rejection (Inl e # rs) = Some e"
| "first_rejection (Inr v # rs) = first_rejection rs"

fun fulfilled :: "(js_error + 'a) list \<Rightarrow> 'a list" where
  "fulfilled [] = []"
| "fulfilled (Inl e # rs) = fulfilled rs"
| "fulfilled (Inr v # rs) = v # fulfilled rs"

definition uploadFiles_limit :: "nat \<Rightarrow> env \<Rightarrow> string list \<Rightarrow> world \<Rightarrow> file_record list result option" where
  "uploadFiles_limit fuel E fileUrls w =
     (if length fileUrls = 0
      then Some (Inl (HttpException (BodyText ''No file URLs provided'') BAD_REQUEST), w)
      else (case validateFileUrls E fileUrls w of
              (Inl e, w1) \<Rightarrow> Some (Inl e, w1)
            | (Inr _, w1) \<Rightarrow>
                (case run_uploads (processFileUpload fuel E) fileUrls w1 of
                   None \<Rightarrow> None
                 | Some (uploadResults, w2) \<Rightarrow>
                     (case first_rejection uploadResults of
                        None \<Rightarrow> Some (Inr (fulfilled uploadResults), w2)
                      | Some error \<Rightarrow>
                          Some (Inl (HttpException
                                       (BodyText (''Failed to upload files: '' @ err_message error))
                                       BAD_REQUEST),
                                logger LogError (''Failed to upload files: '' @ err_message error) w2)))))"

subsection \<open>uploadFiles, version with batches\<close>

text \<open>The first loop: slices of \<open>batchSize\<close> URLs starting at \<open>i\<close>. With a batch size
  of 0 the loop of the source does not advance; \<open>uploadFiles_batched\<close> below treats
  that case before calling this function.\<close>

function make_batches :: "nat \<Rightarrow> nat \<Rightarrow> 'a list \<Rightarrow> 'a list list" where
  "make_batches batchSize i xs =
     (if batchSize = 0 then []
      else if i < length xs then take batchSize (drop i xs) # make_batches batchSize (i + batchSize) xs
      else [])"
  by pat_completeness auto
termination
  by (relation "measure (\<lambda>(b, i, xs). length xs - i)") auto

declare make_batches.simps [simp del]

text \<open>The \<open>then\<close> and \<open>catch\<close> handlers of one URL, on the two arrays
  \<open>uploadedFiles\<close> and \<open>failedUploads\<close>.\<close>

type_synonym upload_acc = "file_record list \<times> (string \<times> string) list \<times> world"

definition upload_one :: "nat \<Rightarrow> env \<Rightarrow> string \<Rightarrow> upload_acc \<Rightarrow> upload_acc option" where
  "upload_one fuel E url acc =
     (case acc of (uploadedFiles, failedUploads, w) \<Rightarrow>
        (case uploadSingleFileWithRetry fuel E url w of
           None \<Rightarrow> None
         | Some (Inr file, w1) \<Rightarrow> Some (uploadedFiles @ [file], failedUploads, w1)
         | Some (Inl error, w1) \<Rightarrow>
             Some (uploadedFiles, failedUploads @ [(url, err_message error)],
                   logger LogError (''Failed to upload file from URL: '' @ url) w1)))"

fun upload_batch :: "nat \<Rightarrow> env \<Rightarrow> string list \<Rightarrow> upload_acc \<Rightarrow> upload_acc option" where
  "upload_batch fuel E [] acc = Some acc"
| "upload_batch fuel E (url # urls) acc =
     (case upload_one fuel E url acc of
        None \<Rightarrow> None
      | Some acc1 \<Rightarrow> upload_batch fuel E urls acc1)"

fun upload_batches :: "nat \<Rightarrow> env \<Rightarrow> string list list \<Rightarrow> upload_acc \<Rightarrow> upload_acc option" where
  "upload_batches fuel E [] acc = Some acc"
| "upload_batches fuel E (batch # batches) acc =
     (case upload_batch fuel E batch acc of
        None \<Rightarrow> None
      | Some acc1 \<Rightarrow> upload_batches fuel E batches acc1)"

text \<open>\<open>JSON.stringify\<close> of the array of failures (quotes and backslashes escaped).\<close>

definition json_string :: "string \<Rightarrow> string" where
  "json_string s =
     ''\"'' @ concat (map (\<lambda>c. if c = CHR 0x22 \<or> c = CHR 0x5C then [CHR 0x5C, c] else [c]) s) @ ''\"''"

fun json_join :: "string list \<Rightarrow> string" where
  "json_join [] = []"
| "json_join [x] = x"
| "json_join (x # y # ys) = x @ '','' @ json_join (y # ys)"

definition stringify_failed :: "(string \<times> string) list \<Rightarrow> string" where
  "stringify_failed fs =
     ''['' @ json_join (map (\<lambda>(u, r). ''{\"url\":'' @ json_string u @ '',\"reason\":'' @
                                       json_string r @ ''}'') fs) @ '']''"

text \<open>The figures of the clock are left out of the message of completion.\<close>

definition uploadFiles_batched :: "nat \<Rightarrow> env \<Rightarrow> string list \<Rightarrow> world \<Rightarrow> file_record list result option" where
  "uploadFiles_batched fuel E fileUrls w =
     (let batchSize = MAX_CONCURRENT_UPLOADS E;
          w0 = logger Log (''Starting batch upload of '' @ show_nat (length fileUrls) @ '' files'') w
      in if batchSize = 0 \<and> 0 < length fileUrls then None
         else (case upload_batches fuel E (make_batches batchSize 0 fileUrls) ([], [], w0) of
                 None \<Rightarrow> None
               | Some (uploadedFiles, failedUploads, w1) \<Rightarrow>
                   (let w2 = logger Log (''Batch upload completed. Success: '' @
                                         show_nat (length uploadedFiles) @ '', Failed: '' @
                                         show_nat (length failedUploads)) w1
                    in if length failedUploads > 0 \<and> length uploadedFiles = 0
                       then Some (Inl (HttpException
                                         (BodyDetails ''All file uploads failed'' failedUploads)
                                         BAD_REQUEST), w2)
                       else Some (Inr uploadedFiles,
                                  if length failedUploads > 0
                                  then logger Warn (''Some files failed to upload: '' @
                                                    stringify_failed failedUploads) w2
                                  else w2))))"

section \<open>The request: validation pipe and controller\<close>

text \<open>
  The global \<open>ValidationPipe\<close> (with \<open>transform: true\<close>) first builds the DTO, which
  runs the \<open>Transform\<close> callback, and then checks the constraints of the decorators;
  violated constraints become a \<open>BadRequestException\<close> (status 400). An error thrown by
  the \<open>Transform\<close> callback leaves the pipe as it is.
\<close>

definition dto_constraints :: "env \<Rightarrow> string list \<Rightarrow> string list" where
  "dto_constraints E v =
     (if length v < 1 then [''At least one file URL must be provided''] else []) @
     (if length v > 10 then [''Maximum 10 file URLs are allowed at once''] else []) @
     (if list_ex (\<lambda>u. \<not> isURL E u) v then [''Each URL must be a valid HTTP or HTTPS URL''] else [])"

definition BadRequestException :: "string list \<Rightarrow> js_error" where
  "BadRequestException msgs = HttpException (BodyMessages msgs) BAD_REQUEST"

definition ValidationPipe :: "env \<Rightarrow> string list \<Rightarrow> js_error + string list" where
  "ValidationPipe E body =
     (case transform_fileUrls body of
        Inl e \<Rightarrow> Inl e
      | Inr fileUrls \<Rightarrow>
          (let errors = dto_constraints E fileUrls
           in if length errors > 0 then Inl (BadRequestException errors) else Inr fileUrls))"

text \<open>The \<open>catch\<close> of the controller: an \<open>HttpException\<close> is thrown again, any other
  error becomes a 400 with the error's message.\<close>

definition controller_catch :: "js_error \<Rightarrow> js_error" where
  "controller_catch error =
     (if err_status error \<noteq> None then error
      else if err_message error \<noteq> [] \<and> str_includes (err_message error) ''extension''
      then HttpException (BodyStatusError BAD_REQUEST (err_message error)) BAD_REQUEST
      else if err_message error \<noteq> [] \<and>
              (str_includes (err_message error) ''URL'' \<or> str_includes (err_message error) ''url'')
      then HttpException (BodyStatusError BAD_REQUEST (err_message error)) BAD_REQUEST
      else HttpException
             (BodyStatusError BAD_REQUEST
                (if err_message error \<noteq> [] then err_message error
                 else ''Failed to process upload request'')) BAD_REQUEST)"

definition controller_uploadFiles :: "(string list \<Rightarrow> world \<Rightarrow> file_record list result option) \<Rightarrow> string list \<Rightarrow> world \<Rightarrow> file_record list result option" where
  "controller_uploadFiles service fileUrls w =
     (case service fileUrls w of
        None \<Rightarrow> None
      | Some (Inr files, w1) \<Rightarrow> Some (Inr files, w1)
      | Some (Inl error, w1) \<Rightarrow> Some (Inl (controller_catch error), w1))"

text \<open>\<open>POST /files/upload\<close>: the pipe, then the controller with the service it was
  given.\<close>

definition post_upload :: "(string list \<Rightarrow> world \<Rightarrow> file_record list result option) \<Rightarrow> env \<Rightarrow> string list \<Rightarrow> world \<Rightarrow> file_record list result option" where
  "post_upload service E body w =
     (case ValidationPipe E body of
        Inl e \<Rightarrow> Some (Inl e, w)
      | Inr fileUrls \<Rightarrow> controller_uploadFiles service fileUrls w)"

text \<open>The status of the response to a request that ended with an error: the status
  of an \<open>HttpException\<close>, and 500 for any other error.\<close>

definition response_code :: "js_error \<Rightarrow> nat" where
  "response_code e = (case err_status e of Some st \<Rightarrow> st | None \<Rightarrow> 500)"


section \<open>The backoff of the specification\<close>



section \<open>Example environments\<close>

text \<open>
  A pathname function for the URLs of the examples below: scheme http or https, a host,
  then the path up to the query or the fragment. It stands for \<open>new URL(u).pathname\<close>
  on these URLs only.
\<close>

definition is_url_delim :: "char \<Rightarrow> bool" where
  "is_url_delim c = (c = CHR ''/'' \<or> c = CHR ''?'' \<or> c = CHR ''#'')"

definition example_pathname :: "string \<Rightarrow> string option" where
  "example_pathname u =
     (let rest = (if starts_with u ''https://'' then Some (drop 8 u)
                  else if starts_with u ''http://'' then Some (drop 7 u)
                  else None)
      in case rest of
           None \<Rightarrow> None
         | Some r \<Rightarrow>
             (let host = takeWhile (\<lambda>c. \<not> is_url_delim c) r;
                  after = dropWhile (\<lambda>c. \<not> is_url_delim c) r;
                  p = takeWhile (\<lambda>c. c \<noteq> CHR ''?'' \<and> c \<noteq> CHR ''#'') after
              in if host = [] then None else Some (if p = [] then ''/'' else p)))"

definition good_tokens :: tokens where
  "good_tokens = \<lparr>access_token = Some ''access'', refresh_token = Some ''refresh''\<rparr>"

text \<open>Every server answers 200 with four bytes, the provider returns an id, the
  database inserts, \<open>unlink\<close> removes.\<close>

definition env0 :: env where
  "env0 = \<lparr>url_pathname = example_pathname,
           isURL = (\<lambda>u. example_pathname u \<noteq> None),
           tmpdir = ''/tmp'',
           randomBytesHex = (\<lambda>k. ''r'' @ show_nat k),
           http_get = (\<lambda>k u. HttpResponse 200 (Some ''application/pdf'') (Some ''4'') (BodyWritten 4)),
           unlink_result = (\<lambda>k. None),
           drive_files_create = (\<lambda>k md s. DriveResponse (Some (''drive'' @ show_nat k))),
           oauth_refresh = (\<lambda>k. RefreshTokens (Some good_tokens)),
           writeFile_result = (\<lambda>k. None),
           prisma_create = (\<lambda>k. Inr (Suc k)),
           MAX_CONCURRENT_UPLOADS = 3\<rparr>"

definition world0 :: world where
  "world0 = \<lparr>tmp_files = {}, db_rows = [], logs = [], sleeps = [], credentials = good_tokens,
             token_file = Some good_tokens, drive_ready = True,
             n_random = 0, n_http = 0, n_unlink = 0, n_drive = 0, n_refresh = 0,
             n_writeFile = 0, n_db = 0\<rparr>"

text \<open>The server answers 503 to the first two requests and 200 afterwards.\<close>

definition env_503_twice :: env where
  "env_503_twice =
     env0\<lparr>http_get := (\<lambda>k u. if k < 2 then HttpResponse 503 None None (BodyWritten 0)
                              else HttpResponse 200 (Some ''application/pdf'') (Some ''4'') (BodyWritten 4))\<rparr>"


text \<open>The provider rejects the first \<open>n\<close> uploads with 401 and accepts the next.\<close>

definition err401 :: js_error where
  "err401 = (Error ''Invalid Credentials'')\<lparr>err_code := Some (CodeNum 401)\<rparr>"

definition env_401 :: "nat \<Rightarrow> env" where
  "env_401 n =
     env0\<lparr>drive_files_create :=
            (\<lambda>k md s. if k < n then DriveRejected err401
                       else DriveResponse (Some (''drive'' @ show_nat k)))\<rparr>"

text \<open>The provider rejects the first upload with 401 and the OAuth server refuses to
  refresh.\<close>

definition env_refresh_fails :: env where
  "env_refresh_fails = (env_401 1)\<lparr>oauth_refresh := (\<lambda>k. RefreshError (Error ''invalid_grant''))\<rparr>"

text \<open>The provider rejects the first upload with 401 and the second with a quota
  error.\<close>

definition quota_error :: js_error where
  "quota_error = (Error ''The user has exceeded their Drive storage quota'')\<lparr>err_code := Some (CodeNum 403)\<rparr>"

definition env_401_then_quota :: env where
  "env_401_then_quota =
     env0\<lparr>drive_files_create :=
            (\<lambda>k md s. if k < 1 then DriveRejected err401 else DriveRejected quota_error)\<rparr>"

definition md0 :: file_metadata where
  "md0 = \<lparr>md_name = ''a.pdf'', md_mimeType = ''application/pdf'', md_size = 4\<rparr>"

section \<open>Views of the state\<close>

text \<open>What the storage adapter and the OAuth client never change, and the two counters of
  the calls they make.\<close>

definition untouched :: "world \<Rightarrow> string set \<times> nat \<times> file_record list \<times> nat \<times> nat list \<times> nat \<times> nat" where
  "untouched w = (tmp_files w, n_unlink w, db_rows w, n_db w, sleeps w, n_http w, n_random w)"

definition counters :: "world \<Rightarrow> nat \<times> nat" where
  "counters w = (n_drive w, n_refresh w)"

text \<open>The files and the count of \<open>unlink\<close> calls; the rows and the count of provider
  calls.\<close>

definition fs_view :: "world \<Rightarrow> string set \<times> nat" where
  "fs_view w = (tmp_files w, n_unlink w)"

definition db_view :: "world \<Rightarrow> file_record list \<times> nat" where
  "db_view w = (db_rows w, n_drive w)"

text \<open>As \<open>env0\<close>, but \<open>unlink\<close> fails.\<close>

definition EPERM :: js_error where
  "EPERM = (Error ''EPERM: operation not permitted, unlink'')\<lparr>err_code := Some (CodeStr ''EPERM'')\<rparr>"

definition env_unlink_fails :: env where
  "env_unlink_fails = env0\<lparr>unlink_result := (\<lambda>k. Some EPERM)\<rparr>"

definition row0 :: file_record where
  "row0 = \<lparr>f_id = 1, f_name = ''a.pdf'', f_mimeType = ''application/pdf'', f_size = 4,
           f_driveFileId = ''drive0'',
           f_driveUrl = ''https://drive.google.com/file/d/drive0/view''\<rparr>"

section \<open>The checks of one URL, without the accumulators\<close>

text \<open>The reason \<open>validateFileUrls\<close> reports for one URL, if any: the URL cannot be
  parsed, the last segment of its path has no extension, or that extension is not in
  the list of the service.\<close>

definition url_reason :: "env \<Rightarrow> string \<Rightarrow> string option" where
  "url_reason E url =
     (case url_pathname E url of
        None \<Rightarrow> Some ''Invalid URL format''
      | Some urlPath \<Rightarrow>
          (let fileName = (if truthy (js_pop (js_split CHR ''/'' urlPath))
                           then show_opt (js_pop (js_split CHR ''/'' urlPath))
                           else ''unknown-file'');
               fileExtension = toLowerCase (extname fileName)
           in if fileExtension = [] \<or> fileExtension = ''.'' then Some MISSING_EXTENSION
              else if fileExtension \<notin> set SERVICE_EXTENSIONS
              then Some (''File extension \"'' @ fileExtension @ ''\" is not supported.'')
              else None))"

definition invalid_urls :: "env \<Rightarrow> string list \<Rightarrow> (string \<times> string) list" where
  "invalid_urls E urls = List.map_filter (\<lambda>u. map_option (Pair u) (url_reason E u)) urls"

text \<open>An entry passes the transform of the DTO: its extension is allow-listed and not
  deny-listed.\<close>

definition dto_ok :: "string \<Rightarrow> bool" where
  "dto_ok u =
     (includes_opt SUPPORTED_FILE_EXTENSIONS (dto_extension (trim u)) \<and>
      \<not> includes_opt DANGEROUS_FILE_EXTENSIONS (dto_extension (trim u)))"

text \<open>Eleven URLs: one with the extension exe, then ten with the extension pdf.\<close>

definition exe_and_ten_pdfs :: "string list" where
  "exe_and_ten_pdfs = ''https://example.com/a.exe'' # replicate 10 ''https://example.com/a.pdf''"

text \<open>Three URLs; the server of the second answers 404.\<close>

definition three_urls :: "string list" where
  "three_urls = [''https://example.com/a.pdf'', ''https://example.com/b.pdf'',
                 ''https://example.com/c.pdf'']"

definition env_second_404 :: env where
  "env_second_404 =
     env0\<lparr>http_get := (\<lambda>k u. if k = 1 then HttpResponse 404 None None (BodyWritten 0)
                              else HttpResponse 200 (Some ''application/pdf'') (Some ''4'') (BodyWritten 4))\<rparr>"

definition row_a :: file_record where
  "row_a = \<lparr>f_id = 1, f_name = ''a.pdf'', f_mimeType = ''application/pdf'', f_size = 4,
            f_driveFileId = ''drive0'',
            f_driveUrl = ''https://drive.google.com/file/d/drive0/view''\<rparr>"

definition row_c :: file_record where
  "row_c = \<lparr>f_id = 2, f_name = ''c.pdf'', f_mimeType = ''application/pdf'', f_size = 4,
            f_driveFileId = ''drive1'',
            f_driveUrl = ''https://drive.google.com/file/d/drive1/view''\<rparr>"

section \<open>Properties\<close>

subsection \<open>Strings\<close>

lemma js_split_nonempty: "js_split c s \<noteq> []"
  by (induction s) (auto split: list.splits)

lemma js_split_no_sep: "c \<notin> set s \<Longrightarrow> js_split c s = [s]"
  by (induction s) auto

lemma js_split_sep: "c \<in> set s \<Longrightarrow> tl (js_split c s) \<noteq> []"
  by (induction s) (auto split: list.splits simp: js_split_nonempty)

lemma last_js_split: "last (js_split c s) = rev (takeWhile (\<lambda>x. x \<noteq> c) (rev s))"
proof (induction s)
  case Nil
  show ?case by simp
next
  case (Cons x xs)
  show ?case
  proof (cases "x = c")
    case True
    then show ?thesis using Cons js_split_nonempty [of c xs]
      by (simp add: takeWhile_append)
  next
    case False
    show ?thesis
    proof (cases "c \<in> set xs")
      case True
      then obtain s ss where eq: "js_split c xs = s # ss" and ne: "ss \<noteq> []"
        using js_split_sep [of c xs] js_split_nonempty [of c xs] by (cases "js_split c xs") auto
      from True have "c \<in> set (rev xs)" by simp
      then have tw: "takeWhile (\<lambda>x. x \<noteq> c) (rev xs @ [x]) = takeWhile (\<lambda>x. x \<noteq> c) (rev xs)"
        by (intro takeWhile_append1) auto
      show ?thesis using Cons eq ne False by (simp add: tw)
    next
      case nin: False
      then have tw: "takeWhile (\<lambda>x. x \<noteq> c) (rev xs @ [x]) = rev xs @ [x]"
        using False by (simp add: takeWhile_append)
      show ?thesis using js_split_no_sep [OF nin] False by (simp add: tw)
    qed
  qed
qed

subsection \<open>The extension check of the DTO\<close>

text \<open>
  C10. The extension the DTO checks is what follows the last dot of the whole lowercased
  URL string, whatever the path of the URL is. So the URL
  \<open>https://example.com/file.pdf?download=1\<close>, whose path ends in \<open>.pdf\<close>, is
  refused by the pipe (the extension read is \<open>pdf?download=1\<close>), and the URL
  \<open>https://example.com/run.exe#.pdf\<close>, whose path ends in \<open>.exe\<close>, passes the
  transform and the pipe (the extension read is \<open>pdf\<close>).
\<close>

theorem dto_extension_last_dot_segment:
  "dto_extension url = Some (rev (takeWhile (\<lambda>x. x \<noteq> CHR ''.'') (rev (toLowerCase url)))) \<and>
   extname ''file.pdf'' = ''.pdf'' \<and>
   ValidationPipe E [''https://example.com/file.pdf?download=1''] =
     Inl (Error ''File extension \"pdf?download=1\" is not supported'') \<and>
   extname ''run.exe'' = ''.exe'' \<and>
   transform_fileUrls [''https://example.com/run.exe#.pdf''] = Inr [''https://example.com/run.exe#.pdf''] \<and>
   ValidationPipe env0 [''https://example.com/run.exe#.pdf''] = Inr [''https://example.com/run.exe#.pdf'']"
proof -
  have a: "dto_extension url = Some (rev (takeWhile (\<lambda>x. x \<noteq> CHR ''.'') (rev (toLowerCase url))))"
    by (simp add: dto_extension_def js_pop_def js_split_nonempty last_js_split)
  have b: "extname ''file.pdf'' = ''.pdf''"
    by code_simp
  have c: "transform_fileUrls [''https://example.com/file.pdf?download=1''] =
           Inl (Error ''File extension \"pdf?download=1\" is not supported'')"
    by code_simp
  have d: "extname ''run.exe'' = ''.exe''"
    by code_simp
  have e: "transform_fileUrls [''https://example.com/run.exe#.pdf''] =
           Inr [''https://example.com/run.exe#.pdf'']"
    by code_simp
  have f: "ValidationPipe env0 [''https://example.com/run.exe#.pdf''] =
           Inr [''https://example.com/run.exe#.pdf'']"
    by code_simp
  from c have c': "ValidationPipe E [''https://example.com/file.pdf?download=1''] =
           Inl (Error ''File extension \"pdf?download=1\" is not supported'')"
    by (simp add: ValidationPipe_def)
  from a b c' d e f show ?thesis by blast
qed

subsection \<open>The retry loop never retries\<close>

lemma wrap_error_not_retryable: "\<not> isRetryable (wrap_error e)"
  by (simp add: wrap_error_def isRetryable_def HttpException_def response_truthy_def
      response_status_def includes_opt_def)

lemma uploadSingleFile_error_wrapped:
  "uploadSingleFile fuel E url w = Some (Inl e, w') \<Longrightarrow> \<exists>e0. e = wrap_error e0"
  by (auto simp: uploadSingleFile_def Let_def split: prod.splits option.splits sum.splits)

text \<open>
  Every error of \<open>uploadSingleFile\<close> is an \<open>HttpException\<close> built by its outer
  \<open>catch\<close>: it has no \<open>code\<close>, and its \<open>response\<close> is a text without a status. The
  loop therefore takes no error for a transient one, and makes one attempt.
\<close>

lemma processFileUpload_single_attempt:
  "processFileUpload fuel E url w = uploadSingleFile fuel E url w"
proof (cases "uploadSingleFile fuel E url w")
  case None
  then show ?thesis
    by (simp add: processFileUpload_def retry_loop.simps [of _ _ 0] MAX_RETRIES_def)
next
  case (Some p)
  obtain r w' where p: "p = (r, w')" by (cases p)
  show ?thesis
  proof (cases r)
    case (Inl e)
    with Some p obtain e0 where "e = wrap_error e0"
      using uploadSingleFile_error_wrapped by blast
    then have "\<not> isRetryable e" by (simp add: wrap_error_not_retryable)
    with Some p Inl show ?thesis
      by (simp add: processFileUpload_def retry_loop.simps [of _ _ 0] MAX_RETRIES_def)
  next
    case (Inr f)
    with Some p show ?thesis
      by (simp add: processFileUpload_def retry_loop.simps [of _ _ 0] MAX_RETRIES_def)
  qed
qed

lemma uploadSingleFileWithRetry_single_attempt:
  "uploadSingleFileWithRetry fuel E url w = uploadSingleFile fuel E url w"
  using processFileUpload_single_attempt [of fuel E url w]
  by (simp add: processFileUpload_def uploadSingleFileWithRetry_def)

text \<open>
  C2. A URL whose server answers 503 twice and then 200: the specification has the
  upload succeed after two retries. The code makes one request, waits never, and fails
  with a 400 that reports the status 503.
\<close>

theorem processFileUpload_503_not_retried:
  "map_option fst (processFileUpload 1 env_503_twice ''https://example.com/a.pdf'' world0) =
     Some (Inl (HttpException
                  (BodyText ''Failed to download file: Server responded with status 503'')
                  BAD_REQUEST)) \<and>
   map_option (\<lambda>r. (n_http (snd r), sleeps (snd r)))
     (processFileUpload 1 env_503_twice ''https://example.com/a.pdf'' world0) = Some (1, [])"
proof -
  have a: "map_option fst (processFileUpload 1 env_503_twice ''https://example.com/a.pdf'' world0) =
     Some (Inl (HttpException
                  (BodyText ''Failed to download file: Server responded with status 503'')
                  BAD_REQUEST))"
    by code_simp
  have b: "map_option (\<lambda>r. (n_http (snd r), sleeps (snd r)))
     (processFileUpload 1 env_503_twice ''https://example.com/a.pdf'' world0) = Some (1, [])"
    by code_simp
  from a b show ?thesis by blast
qed

subsection \<open>The path for large files\<close>

lemma downloadFile_stream:
  "downloadFile E url p w = (Inr (s, md), w1) \<Longrightarrow> s = ReadStream p"
  by (auto simp: downloadFile_def Let_def split: http_outcome.splits if_splits prod.splits body_outcome.splits)

lemma uploadFile_try_n_drive: "n_drive (snd (uploadFile_try E s md w)) \<le> Suc (n_drive w)"
  by (auto simp: uploadFile_try_def getDriveClient_def initializeDriveClient_def getAuthClient_def
      logger_def Let_def split: prod.splits sum.splits drive_outcome.splits if_splits)

text \<open>
  C9. For the stream and the metadata a download has produced, the path for large files
  is the same call of the provider's \<open>uploadFile\<close> as the path for small files, on
  any state: it opens a second stream on the same temporary file and passes it on. One
  run of the \<open>try\<close> block of \<open>uploadFile\<close> makes at most one call of
  \<open>drive.files.create\<close>, with the whole stream as the body.
\<close>

theorem large_file_path_single_shot:
  "(downloadFile E url p w = (Inr (s, md), w1) \<longrightarrow>
      uploadLargeFile fuel E p md w2 = uploadFile fuel E s md w2) \<and>
   n_drive (snd (uploadFile_try E s md w)) \<le> Suc (n_drive w)"
  using downloadFile_stream [of E url p w s md w1] uploadFile_try_n_drive [of E s md w]
  by (auto simp: uploadLargeFile_def)

theorem large_file_path_single_shot_witness:
  "fst (downloadFile env0 ''https://example.com/a.pdf'' ''/tmp/upload-r0'' world0) =
     Inr (ReadStream ''/tmp/upload-r0'', md0) \<and>
   uploadLargeFile 1 env0 ''/tmp/upload-r0'' md0 world0 =
     uploadFile 1 env0 (ReadStream ''/tmp/upload-r0'') md0 world0"
proof -
  have ev: "fst (downloadFile env0 ''https://example.com/a.pdf'' ''/tmp/upload-r0'' world0) =
     Inr (ReadStream ''/tmp/upload-r0'', md0)"
    by code_simp
  then obtain w1 where dl: "downloadFile env0 ''https://example.com/a.pdf'' ''/tmp/upload-r0'' world0 =
     (Inr (ReadStream ''/tmp/upload-r0'', md0), w1)"
    by (cases "downloadFile env0 ''https://example.com/a.pdf'' ''/tmp/upload-r0'' world0") auto
  from large_file_path_single_shot [of env0 "''https://example.com/a.pdf''" "''/tmp/upload-r0''" world0
      "ReadStream ''/tmp/upload-r0''" md0 w1 1 world0] dl
  have "uploadLargeFile 1 env0 ''/tmp/upload-r0'' md0 world0 =
     uploadFile 1 env0 (ReadStream ''/tmp/upload-r0'') md0 world0"
    by blast
  with ev show ?thesis by blast
qed

subsection \<open>The storage adapter: frames and token refresh\<close>

lemma logger_fields [simp]:
  "tmp_files (logger l m w) = tmp_files w"
  "db_rows (logger l m w) = db_rows w"
  "logs (logger l m w) = logs w @ [(l, m)]"
  "sleeps (logger l m w) = sleeps w"
  "credentials (logger l m w) = credentials w"
  "token_file (logger l m w) = token_file w"
  "drive_ready (logger l m w) = drive_ready w"
  "n_random (logger l m w) = n_random w"
  "n_http (logger l m w) = n_http w"
  "n_unlink (logger l m w) = n_unlink w"
  "n_drive (logger l m w) = n_drive w"
  "n_refresh (logger l m w) = n_refresh w"
  "n_writeFile (logger l m w) = n_writeFile w"
  "n_db (logger l m w) = n_db w"
  by (simp_all add: logger_def)

lemma is_auth_err401: "is_auth_error err401"
  by (simp add: is_auth_error_def err401_def Error_def)

lemma untouched_logger [simp]: "untouched (logger l m w) = untouched w"
  by (simp add: untouched_def logger_def)

lemma untouched_updates [simp]:
  "untouched (w\<lparr>drive_ready := b\<rparr>) = untouched w"
  "untouched (w\<lparr>n_drive := n\<rparr>) = untouched w"
  "untouched (w\<lparr>n_refresh := n\<rparr>) = untouched w"
  "untouched (w\<lparr>n_writeFile := n\<rparr>) = untouched w"
  "untouched (w\<lparr>credentials := c\<rparr>) = untouched w"
  "untouched (w\<lparr>token_file := t\<rparr>) = untouched w"
  by (simp_all add: untouched_def)

lemma getAuthClient_untouched: "getAuthClient w = (r, w1) \<Longrightarrow> untouched w1 = untouched w"
  by (auto simp: getAuthClient_def split: if_splits)

lemma initializeDriveClient_untouched:
  "initializeDriveClient w = (r, w1) \<Longrightarrow> untouched w1 = untouched w"
  by (auto simp: initializeDriveClient_def split: prod.splits sum.splits dest: getAuthClient_untouched)

lemma getDriveClient_untouched:
  "getDriveClient w = (r, w1) \<Longrightarrow> untouched w1 = untouched w"
  by (auto simp: getDriveClient_def split: if_splits dest: initializeDriveClient_untouched)

lemma uploadFile_try_untouched:
  "uploadFile_try E s md w = (r, w1) \<Longrightarrow> untouched w1 = untouched w"
  by (auto simp: uploadFile_try_def Let_def
      split: prod.splits sum.splits drive_outcome.splits if_splits dest: getDriveClient_untouched)

lemma saveTokens_untouched:
  "saveTokens E t w = (r, w1) \<Longrightarrow> untouched w1 = untouched w"
  by (auto simp: saveTokens_def Let_def split: option.splits)

lemma refreshAccessToken_untouched:
  "refreshAccessToken E w = (r, w1) \<Longrightarrow> untouched w1 = untouched w"
  by (auto simp: refreshAccessToken_def Let_def
      split: option.splits refresh_outcome.splits if_splits prod.splits sum.splits
      dest: saveTokens_untouched)

lemma refresh_and_reinit_untouched:
  "refresh_and_reinit E w = (r, w1) \<Longrightarrow> untouched w1 = untouched w"
  by (auto simp: refresh_and_reinit_def split: prod.splits sum.splits
      dest!: refreshAccessToken_untouched initializeDriveClient_untouched)

lemma uploadFile_untouched:
  "uploadFile fuel E s md w = Some (r, w1) \<Longrightarrow> untouched w1 = untouched w"
proof (induction fuel arbitrary: w)
  case 0
  then show ?case by simp
next
  case (Suc fuel)
  from Suc.prems show ?case
    by (auto simp: Let_def split: prod.splits sum.splits if_splits
        dest!: uploadFile_try_untouched refresh_and_reinit_untouched Suc.IH)
qed


lemma counters_logger [simp]: "counters (logger l m w) = counters w"
  by (simp add: counters_def logger_def)

lemma counters_updates [simp]:
  "counters (w\<lparr>drive_ready := b\<rparr>) = counters w"
  "counters (w\<lparr>n_writeFile := n\<rparr>) = counters w"
  "counters (w\<lparr>credentials := c\<rparr>) = counters w"
  "counters (w\<lparr>token_file := t\<rparr>) = counters w"
  by (simp_all add: counters_def)

lemma getAuthClient_counters: "getAuthClient w = (r, w1) \<Longrightarrow> counters w1 = counters w"
  by (auto simp: getAuthClient_def split: if_splits)

lemma initializeDriveClient_counters:
  "initializeDriveClient w = (r, w1) \<Longrightarrow> counters w1 = counters w"
  by (auto simp: initializeDriveClient_def split: prod.splits sum.splits dest!: getAuthClient_counters)

lemma getDriveClient_counters:
  "getDriveClient w = (r, w1) \<Longrightarrow> counters w1 = counters w"
  by (auto simp: getDriveClient_def split: if_splits dest!: initializeDriveClient_counters)

lemma uploadFile_try_counters:
  "uploadFile_try E s md w = (r, w1) \<Longrightarrow>
   counters w1 = counters w \<or> counters w1 = (Suc (n_drive w), n_refresh w)"
  by (auto simp: uploadFile_try_def Let_def counters_def logger_def
      split: prod.splits sum.splits drive_outcome.splits if_splits dest!: getDriveClient_counters)

lemma saveTokens_counters:
  "saveTokens E t w = (r, w1) \<Longrightarrow> counters w1 = counters w"
  by (auto simp: saveTokens_def Let_def split: option.splits)

lemma refreshAccessToken_counters:
  "refreshAccessToken E w = (r, w1) \<Longrightarrow>
   counters w1 = counters w \<or> counters w1 = (n_drive w, Suc (n_refresh w))"
  by (auto simp: refreshAccessToken_def Let_def counters_def logger_def
      split: option.splits refresh_outcome.splits if_splits prod.splits sum.splits
      dest!: saveTokens_counters)

lemma refresh_and_reinit_counters:
  "refresh_and_reinit E w = (r, w1) \<Longrightarrow>
   counters w1 = counters w \<or> counters w1 = (n_drive w, Suc (n_refresh w))"
  by (auto simp: refresh_and_reinit_def split: prod.splits sum.splits
      dest!: refreshAccessToken_counters initializeDriveClient_counters)

lemma uploadFile_refresh_fails:
  assumes t: "uploadFile_try E s md w = (Inl e, w1)"
    and a: "is_auth_error e"
    and f: "fst (refresh_and_reinit E (logger LogError (''Failed to upload file to Google Drive: '' @ md_name md) w1)) = Inl re"
  shows "\<exists>w'. uploadFile (Suc fuel) E s md w = Some (Inl auth_expired, w') \<and>
              n_drive w' \<le> Suc (n_drive w) \<and> n_refresh w' \<le> Suc (n_refresh w)"
proof -
  let ?w2 = "logger LogError (''Failed to upload file to Google Drive: '' @ md_name md) w1"
  obtain w3 where r: "refresh_and_reinit E ?w2 = (Inl re, w3)"
    using f by (cases "refresh_and_reinit E ?w2") auto
  let ?w' = "logger LogError ''Token refresh failed, re-authentication required'' w3"
  have u: "uploadFile (Suc fuel) E s md w = Some (Inl auth_expired, ?w')"
    using t a r by simp
  have c1: "counters w1 = counters w \<or> counters w1 = (Suc (n_drive w), n_refresh w)"
    using uploadFile_try_counters [OF t] .
  have c2: "counters w3 = counters ?w2 \<or> counters w3 = (n_drive ?w2, Suc (n_refresh ?w2))"
    using refresh_and_reinit_counters [OF r] .
  have "n_drive ?w' \<le> Suc (n_drive w) \<and> n_refresh ?w' \<le> Suc (n_refresh w)"
    using c1 c2 by (auto simp: counters_def logger_def)
  with u show ?thesis by blast
qed

lemma uploadFile_env_401:
  "drive_ready w \<Longrightarrow> truthy (refresh_token (credentials w)) \<Longrightarrow> n_drive w + m = n \<Longrightarrow>
   \<exists>r w'. uploadFile (Suc m) (env_401 n) s md w = Some (Inr r, w') \<and>
          n_refresh w' = n_refresh w + m \<and> n_drive w' = Suc n"
proof (induction m arbitrary: w)
  case 0
  then show ?case
    by (simp add: uploadFile_try_def getDriveClient_def env_401_def env0_def truthy_def logger_def Let_def)
next
  case (Suc m)
  let ?w1 = "(logger Log (''Uploading file to Google Drive: '' @ md_name md) w)\<lparr>n_drive := Suc (n_drive w)\<rparr>"
  let ?w2 = "logger LogError (''Failed to upload file to Google Drive: '' @ md_name md) ?w1"
  let ?w3 = "snd (refresh_and_reinit (env_401 n) ?w2)"
  have t: "uploadFile_try (env_401 n) s md w = (Inl err401, ?w1)"
    using Suc.prems
    by (simp add: uploadFile_try_def getDriveClient_def env_401_def env0_def Let_def)
  have r: "fst (refresh_and_reinit (env_401 n) ?w2) = Inr ()"
    and w3: "drive_ready ?w3" "truthy (refresh_token (credentials ?w3))"
       "n_drive ?w3 = Suc (n_drive w)" "n_refresh ?w3 = Suc (n_refresh w)"
    using Suc.prems
    by (simp_all add: refresh_and_reinit_def refreshAccessToken_def saveTokens_def
        initializeDriveClient_def getAuthClient_def env_401_def env0_def good_tokens_def
        truthy_def Let_def)
  obtain w3' where rr: "refresh_and_reinit (env_401 n) ?w2 = (Inr (), w3')" and w3': "w3' = ?w3"
    using r by (cases "refresh_and_reinit (env_401 n) ?w2") auto
  let ?w4 = "logger Log ''Retrying upload with refreshed token'' w3'"
  have step: "uploadFile (Suc (Suc m)) (env_401 n) s md w = uploadFile (Suc m) (env_401 n) s md ?w4"
    by (simp only: uploadFile.simps(2) [of "Suc m"] t rr is_auth_err401 prod.case sum.case Let_def if_True)
  have "drive_ready ?w4" "truthy (refresh_token (credentials ?w4))" "n_drive ?w4 + m = n"
    using w3 Suc.prems by (simp_all add: w3')
  from Suc.IH [OF this] obtain r' w' where
    "uploadFile (Suc m) (env_401 n) s md ?w4 = Some (Inr r', w')"
    "n_refresh w' = n_refresh ?w4 + m" "n_drive w' = Suc n"
    by blast
  then show ?case using step w3 by (simp add: w3')
qed


text \<open>
  C3, in the form the code satisfies. When the upload fails with an authentication error and the refresh of the
  token (or the new initialisation of the client) fails, \<open>uploadFile\<close> ends with the
  error that asks for a new authentication, after at most one call of the provider and
  at most one refresh request. When the refresh succeeds, the upload is run again as a
  whole, with its own refresh on a further authentication error: a provider that rejects
  the first \<open>n\<close> uploads with 401 is asked \<open>n + 1\<close> times, after \<open>n\<close> refreshes,
  and the upload succeeds.
\<close>

theorem uploadFile_refresh_cycles:
  "(uploadFile_try E s md w = (Inl e, w1) \<and> is_auth_error e \<and>
    fst (refresh_and_reinit E
           (logger LogError (''Failed to upload file to Google Drive: '' @ md_name md) w1)) = Inl re
    \<longrightarrow> (\<exists>w'. uploadFile (Suc fuel) E s md w = Some (Inl auth_expired, w') \<and>
              n_drive w' \<le> Suc (n_drive w) \<and> n_refresh w' \<le> Suc (n_refresh w))) \<and>
   (\<exists>r w'. uploadFile (Suc n) (env_401 n) s md world0 = Some (Inr r, w') \<and>
           n_refresh w' = n \<and> n_drive w' = Suc n)"
proof -
  have b: "\<exists>r w'. uploadFile (Suc n) (env_401 n) s md world0 = Some (Inr r, w') \<and>
           n_refresh w' = n_refresh world0 + n \<and> n_drive w' = Suc n"
    by (rule uploadFile_env_401) (simp_all add: world0_def good_tokens_def truthy_def)
  have z: "n_refresh world0 = 0" by (simp add: world0_def)
  from b have b': "\<exists>r w'. uploadFile (Suc n) (env_401 n) s md world0 = Some (Inr r, w') \<and>
           n_refresh w' = n \<and> n_drive w' = Suc n"
    by (simp add: z)
  show ?thesis
    using uploadFile_refresh_fails [of E s md w e w1 re fuel] b' by blast
qed

theorem uploadFile_refresh_cycles_witness:
  "\<exists>w'. uploadFile (Suc 1) env_refresh_fails (ReadStream ''/tmp/upload-r0'') md0 world0 =
           Some (Inl auth_expired, w') \<and>
        n_drive w' \<le> Suc (n_drive world0) \<and> n_refresh w' \<le> Suc (n_refresh world0)"
proof -
  let ?s = "ReadStream ''/tmp/upload-r0''"
  let ?w1 = "(logger Log (''Uploading file to Google Drive: '' @ md_name md0) world0)\<lparr>n_drive := Suc (n_drive world0)\<rparr>"
  have t: "uploadFile_try env_refresh_fails ?s md0 world0 = (Inl err401, ?w1)"
    by (simp add: uploadFile_try_def getDriveClient_def env_refresh_fails_def env_401_def env0_def
        world0_def Let_def)
  have f: "fst (refresh_and_reinit env_refresh_fails
                  (logger LogError (''Failed to upload file to Google Drive: '' @ md_name md0) ?w1)) =
           Inl (Error ''invalid_grant'')"
    by (simp add: refresh_and_reinit_def refreshAccessToken_def env_refresh_fails_def env_401_def
        env0_def world0_def good_tokens_def truthy_def Let_def)
  from uploadFile_refresh_cycles [of env_refresh_fails ?s md0 world0 err401 ?w1 "Error ''invalid_grant''" 1]
    t is_auth_err401 f
  show ?thesis by blast
qed

text \<open>
  C3 as stated fails. A provider that answers 401, 401 and then accepts: the upload
  succeeds after two refreshes and three calls, not one cycle. A provider that answers
  401 and then a quota error: the error of the retried upload is the quota error
  itself, not the error that asks for a new authentication.
\<close>

theorem uploadFile_two_refresh_cycles:
  "map_option (\<lambda>p. (fst p, n_refresh (snd p), n_drive (snd p)))
     (uploadFile 3 (env_401 2) (ReadStream ''/tmp/upload-r0'') md0 world0) =
     Some (Inr \<lparr>ur_id = ''drive2'', ur_url = ''https://drive.google.com/file/d/drive2/view''\<rparr>, 2, 3) \<and>
   map_option (\<lambda>p. (fst p, n_refresh (snd p), n_drive (snd p)))
     (uploadFile 3 env_401_then_quota (ReadStream ''/tmp/upload-r0'') md0 world0) =
     Some (Inl quota_error, 1, 2)"
proof -
  have a: "map_option (\<lambda>p. (fst p, n_refresh (snd p), n_drive (snd p)))
     (uploadFile 3 (env_401 2) (ReadStream ''/tmp/upload-r0'') md0 world0) =
     Some (Inr \<lparr>ur_id = ''drive2'', ur_url = ''https://drive.google.com/file/d/drive2/view''\<rparr>, 2, 3)"
    by code_simp
  have b: "map_option (\<lambda>p. (fst p, n_refresh (snd p), n_drive (snd p)))
     (uploadFile 3 env_401_then_quota (ReadStream ''/tmp/upload-r0'') md0 world0) =
     Some (Inl quota_error, 1, 2)"
    by code_simp
  show ?thesis by (intro conjI a b)
qed

subsection \<open>The pipeline of one URL: rows and temporary files\<close>

lemma views_logger [simp]:
  "fs_view (logger l m w) = fs_view w"
  "db_view (logger l m w) = db_view w"
  by (simp_all add: fs_view_def db_view_def)

lemma untouched_fs_view: "untouched w1 = untouched w \<Longrightarrow> fs_view w1 = fs_view w"
  by (simp add: untouched_def fs_view_def)

lemma untouched_db_rows: "untouched w1 = untouched w \<Longrightarrow> db_rows w1 = db_rows w"
  by (simp add: untouched_def)

lemma createTempFilePath_views:
  "createTempFilePath E w = (p, w0) \<Longrightarrow> fs_view w0 = fs_view w \<and> db_view w0 = db_view w"
  by (auto simp: createTempFilePath_def fs_view_def db_view_def Let_def)

lemma extractFileNameFromUrl_views:
  "extractFileNameFromUrl E url w = (n, w1) \<Longrightarrow> fs_view w1 = fs_view w \<and> db_view w1 = db_view w"
  by (auto simp: extractFileNameFromUrl_def Let_def split: option.splits)

lemma downloadFile_views:
  "downloadFile E url p w = (r, w1) \<Longrightarrow>
   fs_view w1 = (insert p (tmp_files w), n_unlink w) \<and> db_view w1 = db_view w"
  by (auto simp: downloadFile_def createWriteStream_def Let_def fs_view_def db_view_def
      split: http_outcome.splits if_splits prod.splits body_outcome.splits
      dest!: extractFileNameFromUrl_views)

lemma saveToDB_views:
  "saveToDB E fileName md res w = (r, w1) \<Longrightarrow>
   fs_view w1 = fs_view w \<and> n_drive w1 = n_drive w \<and>
   (case r of Inl e \<Rightarrow> db_rows w1 = db_rows w
    | Inr row \<Rightarrow> db_rows w1 = db_rows w @ [row] \<and> f_driveFileId row = ur_id res)"
  by (auto simp: saveToDB_def Let_def fs_view_def split: sum.splits)

lemma fs_unlink_views:
  "fs_unlink E p w = (r, w1) \<Longrightarrow> p \<in> tmp_files w \<Longrightarrow>
   db_view w1 = db_view w \<and> n_unlink w1 = Suc (n_unlink w) \<and>
   tmp_files w1 = (if unlink_result E (n_unlink w) = None then tmp_files w - {p} else tmp_files w)"
  by (auto simp: fs_unlink_def Let_def db_view_def split: option.splits)

lemma cleanup_temp_views:
  "p \<in> tmp_files w \<Longrightarrow>
   db_view (cleanup_temp E p w) = db_view w \<and> n_unlink (cleanup_temp E p w) = Suc (n_unlink w) \<and>
   tmp_files (cleanup_temp E p w) =
     (if unlink_result E (n_unlink w) = None then tmp_files w - {p} else tmp_files w)"
  using fs_unlink_views [of E p w "fst (fs_unlink E p w)" "snd (fs_unlink E p w)"]
  by (simp add: cleanup_temp_def fs_access_def)


lemma uploadFile_try_success:
  "uploadFile_try E s md w = (Inr res, w1) \<Longrightarrow>
   ur_id res \<noteq> [] \<and> drive_files_create E (n_drive w) md s = DriveResponse (Some (ur_id res)) \<and>
   n_drive w1 = Suc (n_drive w)"
  by (auto simp: uploadFile_try_def Let_def truthy_def show_opt_def counters_def
      split: prod.splits sum.splits drive_outcome.splits if_splits option.splits
      dest!: getDriveClient_counters)

lemma uploadFile_try_n_drive_mono:
  "uploadFile_try E s md w = (r, w1) \<Longrightarrow> n_drive w \<le> n_drive w1"
  using uploadFile_try_counters [of E s md w r w1] by (auto simp: counters_def)

lemma refresh_and_reinit_n_drive:
  "refresh_and_reinit E w = (r, w1) \<Longrightarrow> n_drive w1 = n_drive w"
  using refresh_and_reinit_counters [of E w r w1] by (auto simp: counters_def)

lemma uploadFile_n_drive_mono:
  "uploadFile fuel E s md w = Some (r, w1) \<Longrightarrow> n_drive w \<le> n_drive w1"
proof (induction fuel arbitrary: w)
  case 0
  then show ?case by simp
next
  case (Suc fuel)
  obtain r0 w0 where t: "uploadFile_try E s md w = (r0, w0)"
    by (cases "uploadFile_try E s md w")
  have m0: "n_drive w \<le> n_drive w0" using uploadFile_try_n_drive_mono [OF t] .
  show ?case
  proof (cases r0)
    case (Inr res)
    with Suc.prems t m0 show ?thesis by simp
  next
    case (Inl e)
    let ?w2 = "logger LogError (''Failed to upload file to Google Drive: '' @ md_name md) w0"
    obtain r3 w3 where rr: "refresh_and_reinit E ?w2 = (r3, w3)"
      by (cases "refresh_and_reinit E ?w2")
    have m3: "n_drive w3 = n_drive w0" using refresh_and_reinit_n_drive [OF rr] by simp
    show ?thesis
    proof (cases "is_auth_error e \<and> (\<exists>u. r3 = Inr u)")
      case False
      with Suc.prems t Inl rr m0 m3 show ?thesis
        by (cases r3) (auto simp: Let_def split: if_splits)
    next
      case True
      then obtain u where r3: "r3 = Inr u" by blast
      have "uploadFile fuel E s md (logger Log ''Retrying upload with refreshed token'' w3) = Some (r, w1)"
        using Suc.prems True
        by (simp only: uploadFile.simps t Inl rr r3 prod.case sum.case Let_def if_True)
      from Suc.IH [OF this] m0 m3 show ?thesis by simp
    qed
  qed
qed

lemma uploadFile_success:
  "uploadFile fuel E s md w = Some (Inr res, w1) \<Longrightarrow>
   ur_id res \<noteq> [] \<and>
   (\<exists>k. n_drive w \<le> k \<and> k < n_drive w1 \<and>
        drive_files_create E k md s = DriveResponse (Some (ur_id res)))"
proof (induction fuel arbitrary: w)
  case 0
  then show ?case by simp
next
  case (Suc fuel)
  obtain r0 w0 where t: "uploadFile_try E s md w = (r0, w0)"
    by (cases "uploadFile_try E s md w")
  have m0: "n_drive w \<le> n_drive w0" using uploadFile_try_n_drive_mono [OF t] .
  show ?case
  proof (cases r0)
    case (Inr res0)
    with Suc.prems t have eq: "res0 = res" "w0 = w1" by simp_all
    from uploadFile_try_success [OF t [unfolded Inr eq]]
    show ?thesis by auto
  next
    case (Inl e)
    let ?w2 = "logger LogError (''Failed to upload file to Google Drive: '' @ md_name md) w0"
    obtain r3 w3 where rr: "refresh_and_reinit E ?w2 = (r3, w3)"
      by (cases "refresh_and_reinit E ?w2")
    have m3: "n_drive w3 = n_drive w0" using refresh_and_reinit_n_drive [OF rr] by simp
    show ?thesis
    proof (cases "is_auth_error e \<and> (\<exists>u. r3 = Inr u)")
      case False
      with Suc.prems t Inl rr show ?thesis
        by (cases r3) (auto simp: Let_def split: if_splits)
    next
      case True
      then obtain u where r3: "r3 = Inr u" by blast
      have "uploadFile fuel E s md (logger Log ''Retrying upload with refreshed token'' w3) = Some (Inr res, w1)"
        using Suc.prems True
        by (simp only: uploadFile.simps t Inl rr r3 prod.case sum.case Let_def if_True)
      from Suc.IH [OF this] obtain k where
        "n_drive w3 \<le> k" "k < n_drive w1" "drive_files_create E k md s = DriveResponse (Some (ur_id res))"
        and ne: "ur_id res \<noteq> []"
        by auto
      with m0 m3 show ?thesis by (intro conjI ne exI [of _ k]) auto
    qed
  qed
qed


lemma fs_unlink_db_view: "fs_unlink E p w = (r, w1) \<Longrightarrow> db_view w1 = db_view w"
  by (auto simp: fs_unlink_def Let_def db_view_def split: option.splits if_splits)

lemma uploadFile_views:
  assumes "uploadFile fuel E s md w = Some (r, w1)"
  shows "fs_view w1 = fs_view w \<and> db_rows w1 = db_rows w"
proof -
  have u: "untouched w1 = untouched w" using uploadFile_untouched [OF assms] .
  show ?thesis using untouched_fs_view [OF u] untouched_db_rows [OF u] by (intro conjI)
qed

lemma upload_step_views:
  assumes run: "upload_step fuel E p fileName fs md w = Some (r, w1)"
  shows "fs_view w1 = fs_view w \<and> db_rows w1 = db_rows w"
proof (cases "md_size md > CHUNK_SIZE")
  case True
  let ?w = "logger Log (''Using chunked upload for large file: '' @ fileName @ '' ('' @
                          show_nat (md_size md) @ '' bytes)'') w"
  have "uploadFile fuel E (ReadStream p) md ?w = Some (r, w1)"
    using run True by (simp only: upload_step_def uploadLargeFile_def Let_def if_True)
  from uploadFile_views [OF this] show ?thesis by simp
next
  case False
  have "uploadFile fuel E fs md w = Some (r, w1)"
    using run False by (simp only: upload_step_def if_False)
  from uploadFile_views [OF this] show ?thesis by simp
qed

lemma upload_step_success:
  assumes run: "upload_step fuel E p fileName fs md w = Some (Inr res, w1)"
  shows "ur_id res \<noteq> [] \<and>
   (\<exists>k s. n_drive w \<le> k \<and> k < n_drive w1 \<and>
        drive_files_create E k md s = DriveResponse (Some (ur_id res)))"
proof (cases "md_size md > CHUNK_SIZE")
  case True
  let ?w = "logger Log (''Using chunked upload for large file: '' @ fileName @ '' ('' @
                          show_nat (md_size md) @ '' bytes)'') w"
  have "uploadFile fuel E (ReadStream p) md ?w = Some (Inr res, w1)"
    using run True by (simp only: upload_step_def uploadLargeFile_def Let_def if_True)
  from uploadFile_success [OF this] obtain k where
    "ur_id res \<noteq> []" "n_drive w \<le> k" "k < n_drive w1"
    "drive_files_create E k md (ReadStream p) = DriveResponse (Some (ur_id res))"
    by auto
  then show ?thesis by (intro conjI exI [of _ k] exI [of _ "ReadStream p"])
next
  case False
  have "uploadFile fuel E fs md w = Some (Inr res, w1)"
    using run False by (simp only: upload_step_def if_False)
  from uploadFile_success [OF this] obtain k where
    "ur_id res \<noteq> []" "n_drive w \<le> k" "k < n_drive w1"
    "drive_files_create E k md fs = DriveResponse (Some (ur_id res))"
    by auto
  then show ?thesis by (intro conjI exI [of _ k] exI [of _ fs])
qed

lemma save_and_unlink_error:
  assumes run: "save_and_unlink E p fileName md res w = (Inl e, w1)"
  shows "fs_view w1 = fs_view w \<and> db_rows w1 = db_rows w"
proof -
  obtain rs w4 where sv: "saveToDB E fileName md res w = (rs, w4)"
    by (cases "saveToDB E fileName md res w")
  show ?thesis
  proof (cases rs)
    case (Inl e')
    with run sv have "w1 = w4" by (simp add: save_and_unlink_def)
    with saveToDB_views [OF sv] Inl show ?thesis by simp
  next
    case (Inr row)
    with run sv show ?thesis by (simp add: save_and_unlink_def Let_def)
  qed
qed

lemma save_and_unlink_success:
  assumes run: "save_and_unlink E p fileName md res w = (Inr row, w1)"
    and pin: "p \<in> tmp_files w"
  shows "db_rows w1 = db_rows w @ [row] \<and> f_driveFileId row = ur_id res \<and> n_drive w1 = n_drive w \<and>
         n_unlink w1 = Suc (n_unlink w) \<and>
         tmp_files w1 = (if unlink_result E (n_unlink w) = None then tmp_files w - {p} else tmp_files w)"
proof -
  obtain rs w4 where sv: "saveToDB E fileName md res w = (rs, w4)"
    by (cases "saveToDB E fileName md res w")
  with run have rs: "rs = Inr row"
    by (cases rs) (auto simp: save_and_unlink_def Let_def)
  have v4: "fs_view w4 = fs_view w" "n_drive w4 = n_drive w" "db_rows w4 = db_rows w @ [row]"
    "f_driveFileId row = ur_id res"
    using saveToDB_views [OF sv] rs by simp_all
  let ?w5 = "logger Log (''Successfully uploaded file: '' @ fileName) w4"
  obtain rl w6 where ul: "fs_unlink E p ?w5 = (rl, w6)"
    by (cases "fs_unlink E p ?w5")
  have p5: "p \<in> tmp_files ?w5" "n_unlink ?w5 = n_unlink w" "tmp_files ?w5 = tmp_files w"
    using v4 pin by (simp_all add: fs_view_def)
  have v6: "db_view w6 = db_view ?w5" "n_unlink w6 = Suc (n_unlink w)"
    "tmp_files w6 = (if unlink_result E (n_unlink w) = None then tmp_files w - {p} else tmp_files w)"
    using fs_unlink_views [OF ul p5(1)] p5 by auto
  have w1: "w1 = (case rl of Inr _ \<Rightarrow> w6
                  | Inl err \<Rightarrow> logger Warn (''Failed to delete temp file '' @ p @ '': '' @ err_message err) w6)"
    using run sv rs ul by (simp add: save_and_unlink_def Let_def split: sum.splits)
  have "db_view w1 = db_view w6" "n_unlink w1 = n_unlink w6" "tmp_files w1 = tmp_files w6"
    unfolding w1 by (cases rl; simp)+
  with v6 v4 show ?thesis by (simp add: db_view_def)
qed

lemma uploadSingleFile_body_trace:
  assumes run: "uploadSingleFile_body fuel E url p w = Some (r, w')"
  shows "(\<exists>e. r = Inl e \<and> fs_view w' = (insert p (tmp_files w), n_unlink w) \<and>
              db_rows w' = db_rows w) \<or>
         (\<exists>row. r = Inr row \<and> db_rows w' = db_rows w @ [row] \<and> f_driveFileId row \<noteq> [] \<and>
              (\<exists>k md s. n_drive w \<le> k \<and> k < n_drive w' \<and>
                        drive_files_create E k md s = DriveResponse (Some (f_driveFileId row))) \<and>
              n_unlink w' = Suc (n_unlink w) \<and>
              tmp_files w' = (if unlink_result E (n_unlink w) = None then tmp_files w - {p}
                              else insert p (tmp_files w)))"
proof -
  obtain rd w1 where d: "downloadFile E url p w = (rd, w1)"
    by (cases "downloadFile E url p w")
  have v1: "fs_view w1 = (insert p (tmp_files w), n_unlink w)" "db_view w1 = db_view w"
    using downloadFile_views [OF d] by simp_all
  show ?thesis
  proof (cases rd)
    case (Inl e)
    with run d have "r = Inl e" "w' = w1"
      by (simp_all add: uploadSingleFile_body_def)
    with v1 show ?thesis by (simp add: db_view_def)
  next
    case (Inr sm)
    obtain fileStream md where sm: "sm = (fileStream, md)" by (cases sm)
    obtain fileName w2 where x: "extractFileNameFromUrl E url w1 = (fileName, w2)"
      by (cases "extractFileNameFromUrl E url w1")
    have v2: "fs_view w2 = fs_view w1" "db_view w2 = db_view w1"
      using extractFileNameFromUrl_views [OF x] by simp_all
    have run2: "(case upload_step fuel E p fileName fileStream md w2 of
                   None \<Rightarrow> None
                 | Some (Inl e, w3) \<Rightarrow> Some (Inl e, w3)
                 | Some (Inr uploadResult, w3) \<Rightarrow>
                     Some (save_and_unlink E p fileName md uploadResult w3)) = Some (r, w')"
      using run by (simp only: uploadSingleFile_body_def d Inr sm x prod.case sum.case)
    then obtain ru w3 where u: "upload_step fuel E p fileName fileStream md w2 = Some (ru, w3)"
      by (cases "upload_step fuel E p fileName fileStream md w2") auto
    have v3: "fs_view w3 = fs_view w2" "db_rows w3 = db_rows w2"
      using upload_step_views [OF u] by simp_all
    have base: "fs_view w3 = (insert p (tmp_files w), n_unlink w)" "db_rows w3 = db_rows w"
      "n_drive w2 = n_drive w"
      using v1 v2 v3 by (simp_all add: db_view_def)
    show ?thesis
    proof (cases ru)
      case (Inl e)
      with run2 u have "r = Inl e" "w' = w3" by simp_all
      with base show ?thesis by simp
    next
      case res: (Inr uploadResult)
      have ok: "ur_id uploadResult \<noteq> []"
        and exk: "\<exists>k s. n_drive w2 \<le> k \<and> k < n_drive w3 \<and>
                   drive_files_create E k md s = DriveResponse (Some (ur_id uploadResult))"
        using upload_step_success [OF u [unfolded res]] by simp_all
      have sv: "save_and_unlink E p fileName md uploadResult w3 = (r, w')"
        using run2 u res by simp
      show ?thesis
      proof (cases r)
        case (Inl e)
        with save_and_unlink_error [OF sv [unfolded Inl]] base show ?thesis by simp
      next
        case row: (Inr fl)
        have pin: "p \<in> tmp_files w3" "tmp_files w3 = insert p (tmp_files w)" "n_unlink w3 = n_unlink w"
          using base by (simp_all add: fs_view_def)
        from save_and_unlink_success [OF sv [unfolded row] pin(1)]
        have fin: "db_rows w' = db_rows w3 @ [fl]" "f_driveFileId fl = ur_id uploadResult"
          "n_drive w' = n_drive w3" "n_unlink w' = Suc (n_unlink w3)"
          "tmp_files w' = (if unlink_result E (n_unlink w3) = None then tmp_files w3 - {p} else tmp_files w3)"
          by simp_all
        from exk obtain k s where k: "n_drive w2 \<le> k" "k < n_drive w3"
          "drive_files_create E k md s = DriveResponse (Some (ur_id uploadResult))" by blast
        have "\<exists>k md s. n_drive w \<le> k \<and> k < n_drive w' \<and>
                drive_files_create E k md s = DriveResponse (Some (f_driveFileId fl))"
          using k base fin by (intro exI [of _ k] exI [of _ md] exI [of _ s]) simp
        moreover have "tmp_files w' = (if unlink_result E (n_unlink w) = None then tmp_files w - {p}
                              else insert p (tmp_files w))"
          using fin pin by simp
        ultimately show ?thesis using fin ok row base pin by simp
      qed
    qed
  qed
qed


lemma digit_char_values:
  "digit_char 0 = CHR ''0''" "digit_char 1 = CHR ''1''" "digit_char 2 = CHR ''2''"
  "digit_char 3 = CHR ''3''" "digit_char 4 = CHR ''4''" "digit_char 5 = CHR ''5''"
  "digit_char 6 = CHR ''6''" "digit_char 7 = CHR ''7''" "digit_char 8 = CHR ''8''"
  "digit_char 9 = CHR ''9''"
  by code_simp+

lemma show_nat_digit: "n < 10 \<Longrightarrow> show_nat n = [digit_char n]"
  by (simp add: show_nat.simps)

lemmas pipeline_defs =
  uploadSingleFile_def createTempFilePath_def uploadSingleFile_body_def downloadFile_def
  createWriteStream_def extractFileNameFromUrl_def upload_step_def uploadLargeFile_def
  uploadFile_try_def getDriveClient_def save_and_unlink_def saveToDB_def fs_unlink_def
  fs_access_def cleanup_temp_def wrap_error_def isAxiosError_def axios_status_error_def
  validateStatus_def truthy_def show_opt_def js_pop_def path_join_def CHUNK_SIZE_def Let_def
  logger_def

lemmas example_defs =
  env0_def world0_def example_pathname_def is_url_delim_def row0_def md0_def good_tokens_def
  show_nat_digit digit_char_values

lemma upload_a_pdf_env0:
  "map_option fst (uploadSingleFile 1 env0 ''https://example.com/a.pdf'' world0) = Some (Inr row0)"
  by (simp add: pipeline_defs example_defs)

lemma uploadSingleFile_trace:
  assumes run: "uploadSingleFile fuel E url w = Some (r, w')"
  shows "n_unlink w' = Suc (n_unlink w) \<and>
         tmp_files w' = (if unlink_result E (n_unlink w) = None
                         then tmp_files w - {fst (createTempFilePath E w)}
                         else insert (fst (createTempFilePath E w)) (tmp_files w)) \<and>
         ((\<exists>e. r = Inl e \<and> db_rows w' = db_rows w) \<or>
          (\<exists>row. r = Inr row \<and> db_rows w' = db_rows w @ [row] \<and> f_driveFileId row \<noteq> [] \<and>
              (\<exists>k md s. n_drive w \<le> k \<and> k < n_drive w' \<and>
                        drive_files_create E k md s = DriveResponse (Some (f_driveFileId row)))))"
proof -
  obtain p w0 where c: "createTempFilePath E w = (p, w0)"
    by (cases "createTempFilePath E w")
  have v0: "tmp_files w0 = tmp_files w" "n_unlink w0 = n_unlink w" "db_rows w0 = db_rows w"
    "n_drive w0 = n_drive w"
    using createTempFilePath_views [OF c] by (simp_all add: fs_view_def db_view_def)
  have run1: "(case uploadSingleFile_body fuel E url p w0 of
           None \<Rightarrow> None
         | Some (Inr fl, w1) \<Rightarrow> Some (Inr fl, w1)
         | Some (Inl error, w1) \<Rightarrow>
             (let w2 = cleanup_temp E p w1;
                  w3 = logger LogError (''Error processing file from URL: '' @ url) w2
              in Some (Inl (wrap_error error), w3))) = Some (r, w')"
    using run by (simp only: uploadSingleFile_def c prod.case)
  then obtain rb w1 where b: "uploadSingleFile_body fuel E url p w0 = Some (rb, w1)"
    by (cases "uploadSingleFile_body fuel E url p w0") auto
  show ?thesis
  proof (cases rb)
    case (Inr row)
    with run1 b have eq: "r = Inr row" "w' = w1" by simp_all
    from uploadSingleFile_body_trace [OF b] Inr
    have "db_rows w1 = db_rows w0 @ [row]" "f_driveFileId row \<noteq> []"
      "\<exists>k md s. n_drive w0 \<le> k \<and> k < n_drive w1 \<and>
                 drive_files_create E k md s = DriveResponse (Some (f_driveFileId row))"
      "n_unlink w1 = Suc (n_unlink w0)"
      "tmp_files w1 = (if unlink_result E (n_unlink w0) = None then tmp_files w0 - {p}
                       else insert p (tmp_files w0))"
      by simp_all
    then show ?thesis using eq v0 c by simp
  next
    case (Inl e)
    from uploadSingleFile_body_trace [OF b] Inl
    have t1: "fs_view w1 = (insert p (tmp_files w0), n_unlink w0)" "db_rows w1 = db_rows w0"
      by simp_all
    then have pin: "p \<in> tmp_files w1" "tmp_files w1 = insert p (tmp_files w0)" "n_unlink w1 = n_unlink w0"
      by (simp_all add: fs_view_def)
    let ?w2 = "cleanup_temp E p w1"
    have w': "w' = logger LogError (''Error processing file from URL: '' @ url) ?w2"
      and r: "r = Inl (wrap_error e)"
      using run1 b Inl by (simp_all add: Let_def)
    have cl: "db_view ?w2 = db_view w1" "n_unlink ?w2 = Suc (n_unlink w1)"
      "tmp_files ?w2 = (if unlink_result E (n_unlink w1) = None then tmp_files w1 - {p} else tmp_files w1)"
      using cleanup_temp_views [OF pin(1), of E] by simp_all
    have "db_rows w' = db_rows w" using w' cl t1 v0 by (simp add: db_view_def)
    moreover have "n_unlink w' = Suc (n_unlink w)" using w' cl pin v0 by simp
    moreover have "tmp_files w' = (if unlink_result E (n_unlink w) = None
                         then tmp_files w - {p} else insert p (tmp_files w))"
      using w' cl pin v0 by simp
    ultimately show ?thesis using r c by simp
  qed
qed

text \<open>
  C7. Whenever the pipeline of one URL ends, either it failed and the table is as it
  was, or it returns the one row it has appended, and the \<open>driveFileId\<close> of that row is
  a non-empty id that the provider returned to a \<open>drive.files.create\<close> call made
  during this run.
\<close>

theorem file_record_only_after_id:
  assumes "uploadSingleFile fuel E url w = Some (r, w')"
  shows "case r of
           Inl e \<Rightarrow> db_rows w' = db_rows w
         | Inr row \<Rightarrow>
             db_rows w' = db_rows w @ [row] \<and> f_driveFileId row \<noteq> [] \<and>
             (\<exists>k md s. n_drive w \<le> k \<and> k < n_drive w' \<and>
                       drive_files_create E k md s = DriveResponse (Some (f_driveFileId row)))"
proof (cases r)
  case (Inl e)
  with uploadSingleFile_trace [OF assms] show ?thesis by simp
next
  case (Inr row)
  with uploadSingleFile_trace [OF assms] show ?thesis by simp
qed

theorem file_record_only_after_id_witness:
  "\<exists>w'. uploadSingleFile 1 env0 ''https://example.com/a.pdf'' world0 = Some (Inr row0, w') \<and>
        db_rows w' = db_rows world0 @ [row0] \<and> f_driveFileId row0 \<noteq> [] \<and>
        (\<exists>k md s. n_drive world0 \<le> k \<and> k < n_drive w' \<and>
                  drive_files_create env0 k md s = DriveResponse (Some (f_driveFileId row0)))"
proof -
  from upload_a_pdf_env0 obtain w' where run: "uploadSingleFile 1 env0 ''https://example.com/a.pdf'' world0 = Some (Inr row0, w')"
    by (cases "uploadSingleFile 1 env0 ''https://example.com/a.pdf'' world0") auto
  have c: "db_rows w' = db_rows world0 @ [row0] \<and> f_driveFileId row0 \<noteq> [] \<and>
        (\<exists>k md s. n_drive world0 \<le> k \<and> k < n_drive w' \<and>
                  drive_files_create env0 k md s = DriveResponse (Some (f_driveFileId row0)))"
    using file_record_only_after_id [OF run] by simp
  show ?thesis by (rule exI [of _ w']) (rule conjI [OF run c])
qed

text \<open>
  C8, in the form the code satisfies. Whenever the pipeline of one URL ends, with a row or with an error, it has
  called \<open>unlink\<close> on its temporary file exactly once. If that call succeeded the
  file is gone; if it failed the file is still there.
\<close>

theorem temp_file_unlinked_once:
  assumes "uploadSingleFile fuel E url w = Some (r, w')"
  shows "n_unlink w' = Suc (n_unlink w) \<and>
         tmp_files w' = (if unlink_result E (n_unlink w) = None
                         then tmp_files w - {fst (createTempFilePath E w)}
                         else insert (fst (createTempFilePath E w)) (tmp_files w))"
  using uploadSingleFile_trace [OF assms] by (intro conjI) (elim conjE, assumption)+

theorem temp_file_unlinked_once_witness:
  "\<exists>r w'. uploadSingleFile 1 env0 ''https://example.com/a.pdf'' world0 = Some (r, w') \<and>
          n_unlink w' = Suc (n_unlink world0) \<and> tmp_files w' = tmp_files world0 - {''/tmp/upload-r0''}"
proof -
  from upload_a_pdf_env0 obtain w' where run: "uploadSingleFile 1 env0 ''https://example.com/a.pdf'' world0 = Some (Inr row0, w')"
    by (cases "uploadSingleFile 1 env0 ''https://example.com/a.pdf'' world0") auto
  have p: "fst (createTempFilePath env0 world0) = ''/tmp/upload-r0''"
    by (simp add: pipeline_defs example_defs)
  have u: "unlink_result env0 (n_unlink world0) = None"
    by (simp add: env0_def)
  have c: "n_unlink w' = Suc (n_unlink world0) \<and> tmp_files w' = tmp_files world0 - {''/tmp/upload-r0''}"
    using temp_file_unlinked_once [OF run] by (simp only: p u if_True simp_thms)
  show ?thesis by (rule exI [of _ "Inr row0"], rule exI [of _ w']) (rule conjI [OF run c])
qed

text \<open>
  C8 as stated fails when \<open>unlink\<close> fails: the upload succeeds, the warning is
  logged, and the temporary file is still there.
\<close>

theorem temp_file_left_when_unlink_fails:
  "map_option (\<lambda>p. (fst p, tmp_files (snd p)))
     (uploadSingleFile 1 env_unlink_fails ''https://example.com/a.pdf'' world0) =
     Some (Inr row0, {''/tmp/upload-r0''})"
  by (simp add: pipeline_defs example_defs env_unlink_fails_def)

subsection \<open>The backoff schedule\<close>






text \<open>
  An attempt of the service makes one GET and waits never; so does the body of its inner
  \<open>try\<close>.
\<close>

lemma extractFileNameFromUrl_waits:
  "extractFileNameFromUrl E url w = (n, w1) \<Longrightarrow> sleeps w1 = sleeps w \<and> n_http w1 = n_http w"
  by (auto simp: extractFileNameFromUrl_def Let_def split: option.splits)

lemma downloadFile_waits:
  "downloadFile E url p w = (r, w1) \<Longrightarrow> sleeps w1 = sleeps w \<and> n_http w1 = Suc (n_http w)"
  by (auto simp: downloadFile_def createWriteStream_def Let_def
      split: http_outcome.splits if_splits prod.splits body_outcome.splits
      dest!: extractFileNameFromUrl_waits)

lemma uploadFile_waits:
  assumes "uploadFile fuel E s md w = Some (r, w1)"
  shows "sleeps w1 = sleeps w \<and> n_http w1 = n_http w"
  using uploadFile_untouched [OF assms] by (simp add: untouched_def)

lemma upload_step_waits:
  assumes run: "upload_step fuel E p fileName fs md w = Some (r, w1)"
  shows "sleeps w1 = sleeps w \<and> n_http w1 = n_http w"
proof (cases "md_size md > CHUNK_SIZE")
  case True
  let ?w = "logger Log (''Using chunked upload for large file: '' @ fileName @ '' ('' @
                          show_nat (md_size md) @ '' bytes)'') w"
  have "uploadFile fuel E (ReadStream p) md ?w = Some (r, w1)"
    using run True by (simp only: upload_step_def uploadLargeFile_def Let_def if_True)
  from uploadFile_waits [OF this] show ?thesis by simp
next
  case False
  have "uploadFile fuel E fs md w = Some (r, w1)"
    using run False by (simp only: upload_step_def if_False)
  from uploadFile_waits [OF this] show ?thesis by simp
qed

lemma save_and_unlink_waits:
  "save_and_unlink E p fileName md res w = (r, w1) \<Longrightarrow>
   sleeps w1 = sleeps w \<and> n_http w1 = n_http w"
  by (auto simp: save_and_unlink_def saveToDB_def fs_unlink_def Let_def
      split: sum.splits prod.splits option.splits if_splits)

lemma cleanup_temp_waits:
  "sleeps (cleanup_temp E p w) = sleeps w \<and> n_http (cleanup_temp E p w) = n_http w"
  by (auto simp: cleanup_temp_def fs_access_def fs_unlink_def Let_def split: option.splits)

lemma uploadSingleFile_body_one_get:
  assumes run: "uploadSingleFile_body fuel E url p w = Some (r, w')"
  shows "sleeps w' = sleeps w \<and> n_http w' = Suc (n_http w)"
proof -
  obtain rd w1 where d: "downloadFile E url p w = (rd, w1)"
    by (cases "downloadFile E url p w")
  note d1 = downloadFile_waits [OF d]
  show ?thesis
  proof (cases rd)
    case (Inl e)
    with run d have "w' = w1" by (simp add: uploadSingleFile_body_def)
    with d1 show ?thesis by simp
  next
    case (Inr sm)
    obtain fs md where sm: "sm = (fs, md)" by (cases sm)
    obtain fileName w2 where x: "extractFileNameFromUrl E url w1 = (fileName, w2)"
      by (cases "extractFileNameFromUrl E url w1")
    note x1 = extractFileNameFromUrl_waits [OF x]
    have run1: "(case upload_step fuel E p fileName fs md w2 of
                None \<Rightarrow> None
              | Some (Inl e, w3) \<Rightarrow> Some (Inl e, w3)
              | Some (Inr uploadResult, w3) \<Rightarrow>
                  Some (save_and_unlink E p fileName md uploadResult w3)) = Some (r, w')"
      using run d Inr sm x by (simp add: uploadSingleFile_body_def)
    then obtain ru w3 where u: "upload_step fuel E p fileName fs md w2 = Some (ru, w3)"
      by (cases "upload_step fuel E p fileName fs md w2") auto
    note u1 = upload_step_waits [OF u]
    show ?thesis
    proof (cases ru)
      case (Inl e)
      with run1 u have "w' = w3" by simp
      with d1 x1 u1 show ?thesis by simp
    next
      case (Inr res)
      with run1 u have "save_and_unlink E p fileName md res w3 = (r, w')" by simp
      from save_and_unlink_waits [OF this] d1 x1 u1 show ?thesis by simp
    qed
  qed
qed

lemma uploadSingleFile_one_get:
  assumes run: "uploadSingleFile fuel E url w = Some (r, w')"
  shows "sleeps w' = sleeps w \<and> n_http w' = Suc (n_http w)"
proof -
  obtain p w0 where c: "createTempFilePath E w = (p, w0)"
    by (cases "createTempFilePath E w")
  have c1: "sleeps w0 = sleeps w" "n_http w0 = n_http w"
    using c by (auto simp: createTempFilePath_def Let_def)
  have run1: "(case uploadSingleFile_body fuel E url p w0 of
           None \<Rightarrow> None
         | Some (Inr fl, w1) \<Rightarrow> Some (Inr fl, w1)
         | Some (Inl error, w1) \<Rightarrow>
             (let w2 = cleanup_temp E p w1;
                  w3 = logger LogError (''Error processing file from URL: '' @ url) w2
              in Some (Inl (wrap_error error), w3))) = Some (r, w')"
    using run by (simp only: uploadSingleFile_def c prod.case)
  then obtain rb w1 where b: "uploadSingleFile_body fuel E url p w0 = Some (rb, w1)"
    by (cases "uploadSingleFile_body fuel E url p w0") auto
  note b1 = uploadSingleFile_body_one_get [OF b]
  show ?thesis
  proof (cases rb)
    case (Inr row)
    with run1 b have "w' = w1" by simp
    with b1 c1 show ?thesis by simp
  next
    case (Inl e)
    with run1 b have "w' = logger LogError (''Error processing file from URL: '' @ url) (cleanup_temp E p w1)"
      by (simp add: Let_def)
    with b1 c1 cleanup_temp_waits [of E p w1] show ?thesis by simp
  qed
qed




text \<open>
  In the service itself the attempt is \<open>uploadSingleFile\<close>, whose outer
  \<open>catch\<close> lets no transient error through: there is one attempt, no retry, and
  no wait.
\<close>

lemma processFileUpload_never_waits:
  assumes "processFileUpload fuel E url w = Some (r, w')"
  shows "sleeps w' = sleeps w \<and> n_http w' = Suc (n_http w)"
  using assms uploadSingleFile_one_get [of fuel E url w r w']
  by (simp only: processFileUpload_single_attempt)

subsection \<open>Validation of the batch\<close>

lemma validate_step_eq:
  "validate_step E url (acc, w) =
     (acc @ (case url_reason E url of None \<Rightarrow> [] | Some r \<Rightarrow> [(url, r)]), w)"
  by (simp add: validate_step_def url_reason_def extractFileNameFromUrl_def Let_def
      split: option.splits)

lemma fold_validate_step:
  "fold (validate_step E) urls (acc, w) = (acc @ invalid_urls E urls, w)"
proof (induction urls arbitrary: acc)
  case Nil
  show ?case by (simp add: invalid_urls_def List.map_filter_simps)
next
  case (Cons u us)
  show ?case
    by (cases "url_reason E u")
       (simp_all add: validate_step_eq Cons invalid_urls_def List.map_filter_simps)
qed

lemma validateFileUrls_eq:
  "validateFileUrls E urls w =
     (if invalid_urls E urls = [] then (Inr (), w)
      else (Inl (HttpException (BodyDetails ''Invalid file URLs detected'' (invalid_urls E urls))
                   BAD_REQUEST), w))"
  by (simp add: validateFileUrls_def fold_validate_step)

lemma transform_url_Inr: "(\<exists>v. transform_url u = Inr v) = dto_ok u"
  by (auto simp: transform_url_def dto_ok_def Let_def)

lemma transform_url_result: "transform_url u = Inr v \<Longrightarrow> v = trim u"
  by (auto simp: transform_url_def Let_def split: if_splits)

lemma transform_fileUrls_Inr:
  "(transform_fileUrls urls = Inr us) = (list_all dto_ok urls \<and> us = map trim urls)"
proof (induction urls arbitrary: us)
  case Nil
  show ?case by auto
next
  case (Cons u urls)
  show ?case
  proof (cases "transform_url u")
    case (Inl e)
    then have "\<not> dto_ok u" using transform_url_Inr [of u] by auto
    with Inl show ?thesis by simp
  next
    case (Inr v)
    then have ok: "dto_ok u" and v: "v = trim u"
      using transform_url_Inr [of u] transform_url_result [of u v] by auto
    show ?thesis
    proof (cases "transform_fileUrls urls")
      case l: (Inl e)
      then have "\<not> list_all dto_ok urls" using Cons [of "map trim urls"] by auto
      with Inr l show ?thesis by simp
    next
      case r: (Inr vs)
      then have "list_all dto_ok urls" "vs = map trim urls" using Cons [of vs] by auto
      with Inr r ok v show ?thesis by auto
    qed
  qed
qed

lemma transform_error_plain:
  "transform_fileUrls urls = Inl e \<Longrightarrow> error_details e = [] \<and> err_status e = None"
proof (induction urls)
  case Nil
  then show ?case by simp
next
  case (Cons u urls)
  then show ?case
    by (auto simp: transform_url_def Let_def Error_def error_details_def
        split: sum.splits if_splits)
qed


lemma set_invalid_urls:
  "set (invalid_urls E urls) = {(u, r). u \<in> set urls \<and> url_reason E u = Some r}"
  by (induction urls) (auto simp: invalid_urls_def split: option.splits)

lemma ValidationPipe_Inr:
  "(ValidationPipe E urls = Inr us) =
     (list_all dto_ok urls \<and> list_all (isURL E) (map trim urls) \<and>
      1 \<le> length urls \<and> length urls \<le> 10 \<and> us = map trim urls)"
proof (cases "transform_fileUrls urls")
  case (Inl e)
  then have "\<not> list_all dto_ok urls" using transform_fileUrls_Inr [of urls "map trim urls"] by auto
  with Inl show ?thesis by (simp add: ValidationPipe_def)
next
  case (Inr vs)
  then have ok: "list_all dto_ok urls" and vs: "vs = map trim urls"
    using transform_fileUrls_Inr [of urls vs] by auto
  have ex: "list_ex (\<lambda>u. \<not> isURL E u) (map trim urls) = (\<not> list_all (isURL E) (map trim urls))"
    by (simp add: list_ex_iff list_all_iff)
  show ?thesis
    using Inr ok vs ex
    by (auto simp: ValidationPipe_def dto_constraints_def Let_def BadRequestException_def Suc_le_eq)
qed

text \<open>
  C6, in the form the code satisfies. \<open>validateFileUrls\<close> admits a batch only if no entry has a reason
  against it, and otherwise fails with a 400 whose details are exactly the offending
  URLs of the batch, each with its reason, in the order of the batch; the state is not
  touched. The pipe of the DTO admits a batch only if every entry passes the extension
  transform and the URL validator and the batch has 1 to 10 entries; it admits the
  trimmed batch as a whole or nothing.
\<close>

theorem url_validation_whole_batch:
  "validateFileUrls E urls w =
     (if invalid_urls E urls = [] then (Inr (), w)
      else (Inl (HttpException (BodyDetails ''Invalid file URLs detected'' (invalid_urls E urls))
                   BAD_REQUEST), w)) \<and>
   set (invalid_urls E urls) = {(u, r). u \<in> set urls \<and> url_reason E u = Some r} \<and>
   (ValidationPipe E urls = Inr us) =
     (list_all dto_ok urls \<and> list_all (isURL E) (map trim urls) \<and>
      1 \<le> length urls \<and> length urls \<le> 10 \<and> us = map trim urls)"
  by (intro conjI validateFileUrls_eq set_invalid_urls ValidationPipe_Inr)

text \<open>
  C6 as stated fails at the DTO: of two offending URLs, the error names the extension
  of the first one and carries no URL.
\<close>

theorem transform_error_names_first_extension_only:
  "ValidationPipe env0 [''https://example.com/a.exe'', ''https://example.com/b.bat''] =
     Inl (Error ''File extension \"exe\" is not allowed for security reasons'') \<and>
   error_details (Error ''File extension \"exe\" is not allowed for security reasons'') = []"
proof -
  have a: "transform_fileUrls [''https://example.com/a.exe'', ''https://example.com/b.bat''] =
     Inl (Error ''File extension \"exe\" is not allowed for security reasons'')"
    by code_simp
  have b: "error_details (Error ''File extension \"exe\" is not allowed for security reasons'') = []"
    by (simp add: error_details_def Error_def)
  from a have a': "ValidationPipe env0 [''https://example.com/a.exe'', ''https://example.com/b.bat''] =
     Inl (Error ''File extension \"exe\" is not allowed for security reasons'')"
    by (simp add: ValidationPipe_def)
  show ?thesis by (intro conjI a' b)
qed

lemma response_code_BadRequest: "response_code (BadRequestException msgs) = 400"
  by (simp add: response_code_def BadRequestException_def HttpException_def BAD_REQUEST_def)

lemma post_upload_too_many:
  assumes "length urls > 10"
  shows "\<exists>e. post_upload service E urls w = Some (Inl e, w) \<and>
             (list_all dto_ok urls \<longrightarrow> response_code e = 400)"
proof (cases "transform_fileUrls urls")
  case (Inl e)
  then have "\<not> list_all dto_ok urls" using transform_fileUrls_Inr [of urls "map trim urls"] by auto
  with Inl show ?thesis by (simp add: post_upload_def ValidationPipe_def)
next
  case (Inr vs)
  then have vs: "vs = map trim urls" using transform_fileUrls_Inr [of urls vs] by auto
  have "dto_constraints E vs \<noteq> []" using assms vs by (simp add: dto_constraints_def)
  with Inr have "post_upload service E urls w = Some (Inl (BadRequestException (dto_constraints E vs)), w)"
    by (simp add: post_upload_def ValidationPipe_def Let_def)
  then show ?thesis using response_code_BadRequest by blast
qed

text \<open>
  The size checks of the pipe. A request with an empty list is rejected with a 400, and
  the service with the limiter rejects an empty list with a 400 itself; a request with
  more than 10 URLs is rejected, the state is as before, and the error is a 400 when the
  transform has accepted every entry.
\<close>

lemma pipe_size_checks:
  "post_upload service E [] w =
     Some (Inl (BadRequestException [''At least one file URL must be provided'']), w) \<and>
   response_code (BadRequestException [''At least one file URL must be provided'']) = 400 \<and>
   uploadFiles_limit fuel E [] w =
     Some (Inl (HttpException (BodyText ''No file URLs provided'') BAD_REQUEST), w) \<and>
   (length urls > 10 \<longrightarrow>
      (\<exists>e. post_upload service E urls w = Some (Inl e, w) \<and>
           (list_all dto_ok urls \<longrightarrow> response_code e = 400)))"
proof -
  have a: "post_upload service E [] w =
     Some (Inl (BadRequestException [''At least one file URL must be provided'']), w)"
    by (simp add: post_upload_def ValidationPipe_def dto_constraints_def Let_def)
  have c: "uploadFiles_limit fuel E [] w =
     Some (Inl (HttpException (BodyText ''No file URLs provided'') BAD_REQUEST), w)"
    by (simp add: uploadFiles_limit_def)
  show ?thesis
    using a c response_code_BadRequest post_upload_too_many [of urls service E w] by blast
qed

text \<open>
  C5. A request with eleven URLs, the first of which ends in \<open>.exe\<close>. The
  specification has every request with more than 10 URLs rejected with a 400. The
  transform of the DTO runs before the size of the list is checked, and it throws a
  plain \<open>Error\<close>, not an \<open>HttpException\<close>: the request is rejected and the
  state is as before, but the status of the response is 500, with either version of the
  service.
\<close>

theorem oversized_batch_with_exe_not_400:
  "length exe_and_ten_pdfs = 11 \<and>
   post_upload (uploadFiles_limit 1 env0) env0 exe_and_ten_pdfs world0 =
     Some (Inl (Error ''File extension \"exe\" is not allowed for security reasons''), world0) \<and>
   post_upload (uploadFiles_batched 1 env0) env0 exe_and_ten_pdfs world0 =
     Some (Inl (Error ''File extension \"exe\" is not allowed for security reasons''), world0) \<and>
   response_code (Error ''File extension \"exe\" is not allowed for security reasons'') = 500"
proof -
  have a: "length exe_and_ten_pdfs = 11" by (simp add: exe_and_ten_pdfs_def)
  have t: "transform_url ''https://example.com/a.exe'' =
           Inl (Error ''File extension \"exe\" is not allowed for security reasons'')"
    by code_simp
  have b: "post_upload (uploadFiles_limit 1 env0) env0 exe_and_ten_pdfs world0 =
     Some (Inl (Error ''File extension \"exe\" is not allowed for security reasons''), world0)"
    by (simp add: post_upload_def ValidationPipe_def exe_and_ten_pdfs_def t)
  have b2: "post_upload (uploadFiles_batched 1 env0) env0 exe_and_ten_pdfs world0 =
     Some (Inl (Error ''File extension \"exe\" is not allowed for security reasons''), world0)"
    by (simp add: post_upload_def ValidationPipe_def exe_and_ten_pdfs_def t)
  have c: "response_code (Error ''File extension \"exe\" is not allowed for security reasons'') = 500"
    by (simp add: response_code_def Error_def)
  show ?thesis by (intro conjI a b b2 c)
qed

subsection \<open>The batch\<close>

lemma concat_make_batches:
  "0 < batchSize \<Longrightarrow> concat (make_batches batchSize i xs) = drop i xs"
proof (induction batchSize i xs rule: make_batches.induct)
  case (1 batchSize i xs)
  show ?case
  proof (cases "i < length xs")
    case True
    have "concat (make_batches batchSize i xs) =
          take batchSize (drop i xs) @ concat (make_batches batchSize (i + batchSize) xs)"
      using "1.prems" True by (simp add: make_batches.simps [of batchSize i xs])
    also have "\<dots> = take batchSize (drop i xs) @ drop (i + batchSize) xs"
      using "1.IH" "1.prems" True by simp
    also have "\<dots> = drop i xs"
      by (simp add: add.commute [of i batchSize] flip: drop_drop)
    finally show ?thesis .
  next
    case False
    then show ?thesis using "1.prems" by (simp add: make_batches.simps [of batchSize i xs])
  qed
qed

lemma upload_one_step:
  assumes "upload_one fuel E url (ups, fails, w) = Some (ups', fails', w')"
  shows "\<exists>nu nf. ups' = ups @ nu \<and> fails' = fails @ nf \<and> length nu + length nf = 1 \<and>
                 db_rows w' = db_rows w @ nu \<and> set (map fst nf) \<subseteq> {url}"
proof -
  obtain r w1 where u: "uploadSingleFile fuel E url w = Some (r, w1)"
    using assms
    by (cases "uploadSingleFile fuel E url w")
       (auto simp: upload_one_def uploadSingleFileWithRetry_single_attempt)
  note tr = uploadSingleFile_trace [OF u]
  show ?thesis
  proof (cases r)
    case (Inl e)
    with assms u have "ups' = ups" "fails' = fails @ [(url, err_message e)]"
      "w' = logger LogError (''Failed to upload file from URL: '' @ url) w1"
      by (simp_all add: upload_one_def uploadSingleFileWithRetry_single_attempt)
    moreover have "db_rows w1 = db_rows w" using tr Inl by simp
    ultimately show ?thesis
      by (intro exI [of _ "[]"] exI [of _ "[(url, err_message e)]"]) simp
  next
    case (Inr row)
    with assms u have "ups' = ups @ [row]" "fails' = fails" "w' = w1"
      by (simp_all add: upload_one_def uploadSingleFileWithRetry_single_attempt)
    moreover have "db_rows w1 = db_rows w @ [row]" using tr Inr by simp
    ultimately show ?thesis
      by (intro exI [of _ "[row]"] exI [of _ "[]"]) simp
  qed
qed

lemma upload_batch_steps:
  "upload_batch fuel E batch (ups, fails, w) = Some (ups', fails', w') \<Longrightarrow>
   \<exists>nu nf. ups' = ups @ nu \<and> fails' = fails @ nf \<and> length nu + length nf = length batch \<and>
           db_rows w' = db_rows w @ nu \<and> set (map fst nf) \<subseteq> set batch"
proof (induction batch arbitrary: ups fails w)
  case Nil
  then show ?case by simp
next
  case (Cons url batch)
  from Cons.prems obtain acc1 where o: "upload_one fuel E url (ups, fails, w) = Some acc1"
    and rest: "upload_batch fuel E batch acc1 = Some (ups', fails', w')"
    by (cases "upload_one fuel E url (ups, fails, w)") auto
  obtain ups1 fails1 w1 where acc1: "acc1 = (ups1, fails1, w1)" by (cases acc1)
  from upload_one_step [OF o [unfolded acc1]] obtain nu1 nf1 where
    s1: "ups1 = ups @ nu1" "fails1 = fails @ nf1" "length nu1 + length nf1 = 1"
    "db_rows w1 = db_rows w @ nu1" "set (map fst nf1) \<subseteq> {url}"
    by blast
  from Cons.IH [OF rest [unfolded acc1]] obtain nu2 nf2 where
    s2: "ups' = ups1 @ nu2" "fails' = fails1 @ nf2" "length nu2 + length nf2 = length batch"
    "db_rows w' = db_rows w1 @ nu2" "set (map fst nf2) \<subseteq> set batch"
    by blast
  show ?case
    using s1 s2 by (intro exI [of _ "nu1 @ nu2"] exI [of _ "nf1 @ nf2"]) auto
qed

lemma upload_batches_steps:
  "upload_batches fuel E batches (ups, fails, w) = Some (ups', fails', w') \<Longrightarrow>
   \<exists>nu nf. ups' = ups @ nu \<and> fails' = fails @ nf \<and>
           length nu + length nf = length (concat batches) \<and>
           db_rows w' = db_rows w @ nu \<and> set (map fst nf) \<subseteq> set (concat batches)"
proof (induction batches arbitrary: ups fails w)
  case Nil
  then show ?case by simp
next
  case (Cons batch batches)
  from Cons.prems obtain acc1 where o: "upload_batch fuel E batch (ups, fails, w) = Some acc1"
    and rest: "upload_batches fuel E batches acc1 = Some (ups', fails', w')"
    by (cases "upload_batch fuel E batch (ups, fails, w)") auto
  obtain ups1 fails1 w1 where acc1: "acc1 = (ups1, fails1, w1)" by (cases acc1)
  from upload_batch_steps [OF o [unfolded acc1]] obtain nu1 nf1 where
    s1: "ups1 = ups @ nu1" "fails1 = fails @ nf1" "length nu1 + length nf1 = length batch"
    "db_rows w1 = db_rows w @ nu1" "set (map fst nf1) \<subseteq> set batch"
    by blast
  from Cons.IH [OF rest [unfolded acc1]] obtain nu2 nf2 where
    s2: "ups' = ups1 @ nu2" "fails' = fails1 @ nf2" "length nu2 + length nf2 = length (concat batches)"
    "db_rows w' = db_rows w1 @ nu2" "set (map fst nf2) \<subseteq> set (concat batches)"
    by blast
  show ?case
    using s1 s2 by (intro exI [of _ "nu1 @ nu2"] exI [of _ "nf1 @ nf2"]) auto
qed

lemma processFileUpload_fun: "processFileUpload fuel E = uploadSingleFile fuel E"
  by (intro ext) (rule processFileUpload_single_attempt)

lemma run_uploads_single_steps:
  "run_uploads (uploadSingleFile fuel E) urls w = Some (rs, w') \<Longrightarrow>
   length rs = length urls \<and> db_rows w' = db_rows w @ fulfilled rs"
proof (induction urls arbitrary: w rs)
  case Nil
  then show ?case by simp
next
  case (Cons u urls)
  from Cons.prems obtain r w1 where o: "uploadSingleFile fuel E u w = Some (r, w1)"
    by (cases "uploadSingleFile fuel E u w") auto
  with Cons.prems obtain rs1 where rest: "run_uploads (uploadSingleFile fuel E) urls w1 = Some (rs1, w')"
    and rs: "rs = r # rs1"
    by (cases "run_uploads (uploadSingleFile fuel E) urls w1") auto
  note tr = uploadSingleFile_trace [OF o]
  from Cons.IH [OF rest] have ih: "length rs1 = length urls" "db_rows w' = db_rows w1 @ fulfilled rs1"
    by simp_all
  show ?case
  proof (cases r)
    case (Inl e)
    with tr have "db_rows w1 = db_rows w" by simp
    with ih rs Inl show ?thesis by simp
  next
    case (Inr row)
    with tr have "db_rows w1 = db_rows w @ [row]" by simp
    with ih rs Inr show ?thesis by simp
  qed
qed

lemma run_uploads_steps:
  "run_uploads (processFileUpload fuel E) urls w = Some (rs, w') \<Longrightarrow>
   length rs = length urls \<and> db_rows w' = db_rows w @ fulfilled rs"
  using run_uploads_single_steps [of fuel E urls w rs w'] by (simp only: processFileUpload_fun)

lemma first_rejection_None: "first_rejection rs = None \<Longrightarrow> length (fulfilled rs) = length rs"
  by (induction rs rule: first_rejection.induct) auto


lemma uploadFiles_batched_aggregates:
  assumes run: "uploadFiles_batched fuel E urls w = Some (r, w')"
  shows "\<exists>uploaded failed.
           length uploaded + length failed = length urls \<and> set (map fst failed) \<subseteq> set urls \<and>
           db_rows w' = db_rows w @ uploaded \<and>
           (if uploaded = [] \<and> failed \<noteq> []
            then r = Inl (HttpException (BodyDetails ''All file uploads failed'' failed) BAD_REQUEST)
            else r = Inr uploaded \<and>
                 (failed = [] \<or>
                  last (logs w') = (Warn, ''Some files failed to upload: '' @ stringify_failed failed)))"
proof -
  let ?bs = "MAX_CONCURRENT_UPLOADS E"
  let ?w0 = "logger Log (''Starting batch upload of '' @ show_nat (length urls) @ '' files'') w"
  have nz: "\<not> (?bs = 0 \<and> 0 < length urls)"
    using run by (auto simp: uploadFiles_batched_def Let_def split: if_splits)
  have cc: "concat (make_batches ?bs 0 urls) = urls"
  proof (cases "?bs = 0")
    case True
    with nz have "urls = []" by simp
    with True show ?thesis by (simp add: make_batches.simps [of 0])
  next
    case False
    then show ?thesis using concat_make_batches [of ?bs 0 urls] by simp
  qed
  obtain acc where b: "upload_batches fuel E (make_batches ?bs 0 urls) ([], [], ?w0) = Some acc"
    using run nz
    by (cases "upload_batches fuel E (make_batches ?bs 0 urls) ([], [], ?w0)")
       (auto simp: uploadFiles_batched_def Let_def split: if_splits)
  obtain ups fails w1 where acc: "acc = (ups, fails, w1)" by (cases acc)
  from upload_batches_steps [OF b [unfolded acc]] cc
  have st: "length ups + length fails = length urls" "db_rows w1 = db_rows w @ ups"
    "set (map fst fails) \<subseteq> set urls"
    by auto
  let ?w2 = "logger Log (''Batch upload completed. Success: '' @ show_nat (length ups) @
                         '', Failed: '' @ show_nat (length fails)) w1"
  have res: "(r, w') =
       (if length fails > 0 \<and> length ups = 0
        then (Inl (HttpException (BodyDetails ''All file uploads failed'' fails) BAD_REQUEST), ?w2)
        else (Inr ups, if length fails > 0
                       then logger Warn (''Some files failed to upload: '' @ stringify_failed fails) ?w2
                       else ?w2))"
    using run nz b acc by (auto simp: uploadFiles_batched_def Let_def split: if_splits)
  show ?thesis
  proof (intro exI [of _ ups] exI [of _ fails] conjI)
    show "length ups + length fails = length urls" by (rule st(1))
    show "set (map fst fails) \<subseteq> set urls" by (rule st(3))
    show "db_rows w' = db_rows w @ ups"
      using res st(2) by (auto split: if_splits)
    show "if ups = [] \<and> fails \<noteq> []
          then r = Inl (HttpException (BodyDetails ''All file uploads failed'' fails) BAD_REQUEST)
          else r = Inr ups \<and>
               (fails = [] \<or>
                last (logs w') = (Warn, ''Some files failed to upload: '' @ stringify_failed fails))"
      using res by (auto split: if_splits)
  qed
qed

lemma uploadFiles_limit_all_or_nothing:
  assumes run: "uploadFiles_limit fuel E urls w = Some (r, w')"
  shows "case r of Inr files \<Rightarrow> length files = length urls \<and> db_rows w' = db_rows w @ files
         | Inl e \<Rightarrow> err_status e = Some 400"
proof (cases "length urls = 0 \<or> invalid_urls E urls \<noteq> []")
  case True
  with run show ?thesis
    by (auto simp: uploadFiles_limit_def validateFileUrls_eq HttpException_def BAD_REQUEST_def
        split: if_splits)
next
  case False
  then have v: "validateFileUrls E urls w = (Inr (), w)" by (simp add: validateFileUrls_eq)
  from run False v obtain rs w2 where ru: "run_uploads (processFileUpload fuel E) urls w = Some (rs, w2)"
    by (cases "run_uploads (processFileUpload fuel E) urls w") (auto simp: uploadFiles_limit_def)
  note st = run_uploads_steps [OF ru]
  show ?thesis
  proof (cases "first_rejection rs")
    case None
    with run False v ru have "r = Inr (fulfilled rs)" "w' = w2"
      by (auto simp: uploadFiles_limit_def)
    with st first_rejection_None [OF None] show ?thesis by simp
  next
    case (Some e)
    with run False v ru show ?thesis
      by (auto simp: uploadFiles_limit_def HttpException_def BAD_REQUEST_def)
  qed
qed

text \<open>
  C1, in the form the code satisfies. The version of \<open>uploadFiles\<close> with batches splits the URLs of the batch
  into the rows it has inserted and the failures it has recorded: when nothing was
  uploaded and something failed it throws a 400 that carries the failures; otherwise it
  returns exactly the rows inserted during the call, and the failures, if any, are in
  the last warning of the log and not in the result. The version with the limiter
  returns rows only when every URL of the batch succeeded, and then all of them; any
  other end is a 400.
\<close>

theorem uploadFiles_aggregation:
  "(uploadFiles_batched fuel E urls w = Some (r, w') \<longrightarrow>
      (\<exists>uploaded failed.
         length uploaded + length failed = length urls \<and> set (map fst failed) \<subseteq> set urls \<and>
         db_rows w' = db_rows w @ uploaded \<and>
         (if uploaded = [] \<and> failed \<noteq> []
          then r = Inl (HttpException (BodyDetails ''All file uploads failed'' failed) BAD_REQUEST)
          else r = Inr uploaded \<and>
               (failed = [] \<or>
                last (logs w') = (Warn, ''Some files failed to upload: '' @ stringify_failed failed))))) \<and>
   (uploadFiles_limit fuel E urls w = Some (r, w') \<longrightarrow>
      (case r of Inr files \<Rightarrow> length files = length urls \<and> db_rows w' = db_rows w @ files
       | Inl e \<Rightarrow> err_status e = Some 400))"
  using uploadFiles_batched_aggregates [of fuel E urls w r w']
    uploadFiles_limit_all_or_nothing [of fuel E urls w r w']
  by (intro conjI impI)


lemma show_nat_404: "show_nat 404 = ''404''"
  by code_simp

lemma three_urls_valid: "invalid_urls env_second_404 three_urls = []"
  by code_simp

lemma make_batches_three: "make_batches 3 0 three_urls = [three_urls]"
  by (simp add: make_batches.simps [of 3 0] make_batches.simps [of 3 3] three_urls_def)

lemma digit_char_Suc:
  "digit_char (Suc 0) = CHR ''1''" "digit_char (Suc (Suc 0)) = CHR ''2''"
  "digit_char (Suc (Suc (Suc 0))) = CHR ''3''"
  by code_simp+

lemmas second_404_defs =
  digit_char_Suc env_second_404_def three_urls_def row_a_def row_c_def show_nat_404 show_nat_opt_def
  response_truthy_def response_status_def HttpException_def BAD_REQUEST_def

lemma run_three_urls:
  "map_option (\<lambda>p. (fst p, db_rows (snd p)))
     (run_uploads (uploadSingleFile 1 env_second_404) three_urls world0) =
   Some ([Inr row_a,
          Inl (HttpException
                 (BodyText ''Failed to download file: Server responded with status 404'')
                 BAD_REQUEST),
          Inr row_c], [row_a, row_c])"
  by (simp add: pipeline_defs example_defs second_404_defs)

theorem uploadFiles_aggregation_witness:
  "\<exists>w' uploaded (failed :: (string \<times> string) list).
     uploadFiles_batched 1 env_second_404 three_urls world0 = Some (Inr [row_a, row_c], w') \<and>
     uploaded = [row_a, row_c] \<and> length uploaded + length failed = length three_urls \<and>
     set (map fst failed) \<subseteq> set three_urls \<and>
     db_rows w' = db_rows world0 @ uploaded"
proof -
  have ev: "map_option fst (uploadFiles_batched 1 env_second_404 three_urls world0) =
            Some (Inr [row_a, row_c])"
    by (simp add: uploadFiles_batched_def upload_one_def uploadSingleFileWithRetry_single_attempt
        make_batches.simps [of 3 0] make_batches.simps [of 3 3]
        pipeline_defs example_defs second_404_defs)
  then obtain w' where run: "uploadFiles_batched 1 env_second_404 three_urls world0 =
      Some (Inr [row_a, row_c], w')"
    by (cases "uploadFiles_batched 1 env_second_404 three_urls world0") auto
  from uploadFiles_aggregation [of 1 env_second_404 three_urls world0 "Inr [row_a, row_c]" w'] run
  obtain uploaded failed where
    a: "length uploaded + length failed = length three_urls"
    and s: "set (map fst failed) \<subseteq> set three_urls"
    and b: "db_rows w' = db_rows world0 @ uploaded"
    and c: "if uploaded = [] \<and> failed \<noteq> []
            then Inr [row_a, row_c] = (Inl (HttpException (BodyDetails ''All file uploads failed'' failed) BAD_REQUEST) :: js_error + file_record list)
            else Inr [row_a, row_c] = (Inr uploaded :: js_error + file_record list) \<and>
               (failed = [] \<or>
                last (logs w') = (Warn, ''Some files failed to upload: '' @ stringify_failed failed))"
    by blast
  from c have u: "uploaded = [row_a, row_c]" by (auto split: if_splits)
  have fin: "uploadFiles_batched 1 env_second_404 three_urls world0 = Some (Inr [row_a, row_c], w') \<and>
     uploaded = [row_a, row_c] \<and> length uploaded + length failed = length three_urls \<and>
     set (map fst failed) \<subseteq> set three_urls \<and>
     db_rows w' = db_rows world0 @ uploaded"
    by (intro conjI run u a s b)
  show ?thesis
    apply (rule exI [of _ w'])
    apply (rule exI [of _ uploaded])
    apply (rule exI [of _ failed])
    apply (rule fin)
    done
qed

text \<open>
  C1 as stated fails for the version with the limiter: of three URLs the second fails,
  two rows are inserted, and the call throws a 400 instead of returning them.
\<close>

theorem uploadFiles_limit_aborts_on_partial_failure:
  "map_option (\<lambda>p. (fst p, db_rows (snd p)))
     (uploadFiles_limit 1 env_second_404 three_urls world0) =
   Some (Inl (HttpException
                (BodyText ''Failed to upload files: Failed to download file: Server responded with status 404'')
                BAD_REQUEST),
         [row_a, row_c])"
proof -
  have v: "validateFileUrls env_second_404 three_urls world0 = (Inr (), world0)"
    by (simp add: validateFileUrls_eq three_urls_valid)
  have l: "length three_urls \<noteq> 0" by (simp add: three_urls_def)
  from run_three_urls obtain w' where
    ru: "run_uploads (uploadSingleFile 1 env_second_404) three_urls world0 =
         Some ([Inr row_a,
                Inl (HttpException
                       (BodyText ''Failed to download file: Server responded with status 404'')
                       BAD_REQUEST),
                Inr row_c], w')"
    and db: "db_rows w' = [row_a, row_c]"
    by (cases "run_uploads (uploadSingleFile 1 env_second_404) three_urls world0") auto
  show ?thesis
    using l
    by (simp add: uploadFiles_limit_def v processFileUpload_fun ru [unfolded One_nat_def] db
        HttpException_def body_message_def)
qed

end
